theory Spec2Isabelle
  imports Complex_Main
begin

section \<open>Publish quality gate (scoreQuality and evaluateQuality, src/convex/comments.ts)\<close>

subsection \<open>Data model\<close>

text \<open>
  \<^verbatim>\<open>type TrustTier = 'low' | 'medium' | 'trusted'\<close>
\<close>

datatype TrustTier = Low | Medium | Trusted

text \<open>
  \<^verbatim>\<open>type QualitySignals\<close>. The counts are JavaScript numbers holding integers; they are
  modelled as \<open>int\<close>, so that the subtractions of \<open>scoreQuality\<close> may go below zero as they
  do in the source. \<open>uniqueWordRatio\<close> is a quotient of two array lengths; it is modelled
  as the exact quotient.
\<close>

record QualitySignals =
  bodyChars :: int
  bodyWords :: int
  uniqueWordRatio :: real
  headingCount :: int
  bulletCount :: int
  templateMarkerHits :: int
  genericSummary :: bool
  structuralFingerprint :: string

datatype Decision = Pass | Quarantine | Reject

text \<open>
  \<^verbatim>\<open>type QualityAssessment\<close>; the field \<open>signals\<close> is the input record without its
  fingerprint (\<^verbatim>\<open>Omit<QualitySignals, 'structuralFingerprint'>\<close>).
\<close>

record SignalsOut =
  o_bodyChars :: int
  o_bodyWords :: int
  o_uniqueWordRatio :: real
  o_headingCount :: int
  o_bulletCount :: int
  o_templateMarkerHits :: int
  o_genericSummary :: bool

record QualityAssessment =
  score :: int
  decision :: Decision
  reason :: string
  trustTier :: TrustTier
  similarRecentCount :: int
  signals :: SignalsOut

subsection \<open>scoreQuality\<close>

text \<open>
  The source updates a mutable \<open>score\<close> statement by statement; each \<open>let\<close> below is one
  statement of the source, in its order.
\<close>

definition scoreQuality :: "QualitySignals \<Rightarrow> int" where
  "scoreQuality s =
    (let score = 100;
         score = (if bodyChars s < 250 then score - 28 else score);
         score = (if bodyWords s < 80 then score - 24 else score);
         score = (if uniqueWordRatio s < 0.45 then score - 14 else score);
         score = (if headingCount s < 2 then score - 10 else score);
         score = (if bulletCount s < 3 then score - 8 else score);
         score = score - min 28 (templateMarkerHits s * 9);
         score = (if genericSummary s then score - 20 else score)
     in max 0 score)"

subsection \<open>evaluateQuality\<close>

definition reason_spam :: string where
  "reason_spam = ''Skill appears to be repeated template spam from this account.''"

definition reason_thin :: string where
  "reason_thin =
     ''Skill content is too thin or templated. Add meaningful, specific documentation.''"

definition reason_quarantine :: string where
  "reason_quarantine =
     ''Skill quality is low and requires moderation review before being listed.''"

definition reason_pass :: string where
  "reason_pass = ''Quality checks passed.''"

definition signalsOut :: "QualitySignals \<Rightarrow> SignalsOut" where
  "signalsOut s =
     \<lparr> o_bodyChars = bodyChars s, o_bodyWords = bodyWords s,
       o_uniqueWordRatio = uniqueWordRatio s, o_headingCount = headingCount s,
       o_bulletCount = bulletCount s, o_templateMarkerHits = templateMarkerHits s,
       o_genericSummary = genericSummary s \<rparr>"

definition evaluateQuality :: "QualitySignals \<Rightarrow> TrustTier \<Rightarrow> int \<Rightarrow> QualityAssessment" where
  "evaluateQuality sig tier similar =
    (let sc = scoreQuality sig;
         rejectWordsThreshold = (if tier = Low then 45 else if tier = Medium then 35 else 28);
         rejectCharsThreshold = (if tier = Low then 260 else if tier = Medium then 180 else 140);
         quarantineScoreThreshold = (if tier = Low then 72 else if tier = Medium then 60 else 50);
         similarityRejectThreshold = (if tier = Low then 5 else if tier = Medium then 8 else 12);
         hardReject =
           (bodyWords sig < rejectWordsThreshold \<or>
            bodyChars sig < rejectCharsThreshold \<or>
            (templateMarkerHits sig \<ge> 3 \<and> bodyWords sig < 120) \<or>
            similar \<ge> similarityRejectThreshold)
     in if hardReject then
          \<lparr> score = sc, decision = Reject,
            reason = (if similar \<ge> similarityRejectThreshold then reason_spam else reason_thin),
            trustTier = tier, similarRecentCount = similar, signals = signalsOut sig \<rparr>
        else if sc < quarantineScoreThreshold then
          \<lparr> score = sc, decision = Quarantine, reason = reason_quarantine,
            trustTier = tier, similarRecentCount = similar, signals = signalsOut sig \<rparr>
        else
          \<lparr> score = sc, decision = Pass, reason = reason_pass,
            trustTier = tier, similarRecentCount = similar, signals = signalsOut sig \<rparr>)"

text \<open>
  The tier tables the claims quote, as functions of the tier (used only to state the
  theorems; \<open>evaluateQuality\<close> above spells the thresholds out as the source does).
\<close>

fun wordsFloor :: "TrustTier \<Rightarrow> int" where
  "wordsFloor Low = 45" | "wordsFloor Medium = 35" | "wordsFloor Trusted = 28"

fun charsFloor :: "TrustTier \<Rightarrow> int" where
  "charsFloor Low = 260" | "charsFloor Medium = 180" | "charsFloor Trusted = 140"

fun duplicateCeiling :: "TrustTier \<Rightarrow> int" where
  "duplicateCeiling Low = 5" | "duplicateCeiling Medium = 8" | "duplicateCeiling Trusted = 12"

fun quarantineCeiling :: "TrustTier \<Rightarrow> int" where
  "quarantineCeiling Low = 72" | "quarantineCeiling Medium = 60" | "quarantineCeiling Trusted = 50"

definition hardRejects :: "QualitySignals \<Rightarrow> TrustTier \<Rightarrow> int \<Rightarrow> bool" where
  "hardRejects sig tier similar =
     (bodyWords sig < wordsFloor tier \<or> bodyChars sig < charsFloor tier \<or>
      (templateMarkerHits sig \<ge> 3 \<and> bodyWords sig < 120) \<or>
      similar \<ge> duplicateCeiling tier)"

section \<open>Comment moderation (src/convex/comments.handlers.ts)\<close>

subsection \<open>Strings\<close>

text \<open>
  A JavaScript string is a sequence of UTF-16 code units; a code unit is modelled as a
  natural number (below 65536 in an actual string). \<open>js\<close> is an ASCII literal as such a
  string.
\<close>

type_synonym jsString = "nat list"

definition js :: "string \<Rightarrow> jsString" where
  "js s = map of_char s"

text \<open>
  The white space of \<^verbatim>\<open>String.prototype.trim\<close> and of the regular-expression class \<^verbatim>\<open>\s\<close>
  (ECMAScript's WhiteSpace and LineTerminator): tab, line feed, vertical tab, form feed,
  carriage return, space, U+00A0, U+1680, U+2000 to U+200A, U+2028, U+2029, U+202F,
  U+205F, U+3000 and U+FEFF.
\<close>

definition isSpace :: "nat \<Rightarrow> bool" where
  "isSpace c = (c = 9 \<or> c = 10 \<or> c = 11 \<or> c = 12 \<or> c = 13 \<or> c = 32 \<or> c = 160 \<or>
                c = 5760 \<or> (8192 \<le> c \<and> c \<le> 8202) \<or> c = 8232 \<or> c = 8233 \<or>
                c = 8239 \<or> c = 8287 \<or> c = 12288 \<or> c = 65279)"

definition trim :: "jsString \<Rightarrow> jsString" where
  "trim s = rev (dropWhile isSpace (rev (dropWhile isSpace s)))"

subsection \<open>Documents and tables\<close>

type_synonym Id = nat

text \<open>\<^verbatim>\<open>type CommentStatus = 'active' | 'hidden' | 'removed'\<close>\<close>

datatype CommentStatus = Active | Hidden | Removed

text \<open>
  A document of the table \<open>comments\<close>, with the fields the handlers read and write. An
  optional field (\<^verbatim>\<open>undefined\<close> when absent) is an \<open>option\<close>; numbers are \<open>int\<close>. The
  document's \<^verbatim>\<open>_id\<close> is the key under which the table holds it.
\<close>

record comment =
  skillId :: Id
  userId :: Id
  body :: jsString
  createdAt :: int
  softDeletedAt :: "int option"
  deletedBy :: "Id option"
  moderationStatus :: "CommentStatus option"
  moderationReason :: "string option"
  moderationNotes :: "string option"
  reportCount :: "int option"
  lastReportedAt :: "int option"
  hiddenAt :: "int option"
  lastReviewedAt :: "int option"

datatype Role = RoleUser | RoleModerator | RoleAdmin

record user =
  u_id :: Id
  role :: Role
  deletedAt :: "int option"
  deactivatedAt :: "int option"

record commentReport =
  r_id :: Id
  r_commentId :: Id
  r_skillId :: Id
  r_userId :: Id
  r_reason :: jsString
  r_createdAt :: int

text \<open>
  An entry of \<open>auditLogs\<close>; \<open>metadata\<close> is \<^verbatim>\<open>{ skillId, reportCount? }\<close>.
\<close>

record auditLog =
  actorUserId :: Id
  action :: string
  targetType :: string
  targetId :: Id
  metadata_skillId :: Id
  metadata_reportCount :: "int option"
  a_createdAt :: int

datatype StatKind = StatComment | StatUncomment

record statEvent =
  se_skillId :: Id
  kind :: StatKind

text \<open>
  The store the handlers work on (\<^verbatim>\<open>ctx.db\<close>). \<open>comments\<close> and \<open>users\<close> are keyed by
  document id; \<open>commentReports\<close> is kept in insertion order, which is the order in which
  an index query returns the rows of one reporter or one comment; \<open>auditLogs\<close> is
  append-only. \<open>nextId\<close> is the store's supply of fresh row ids for inserted reports.
  \<open>statEvents\<close> records the calls of \<^verbatim>\<open>insertStatEvent\<close>, in order.
\<close>

record db =
  comments :: "Id \<Rightarrow> comment option"
  users :: "Id \<Rightarrow> user option"
  commentReports :: "commentReport list"
  auditLogs :: "auditLog list"
  statEvents :: "statEvent list"
  nextId :: Id

datatype error =
    AccessError
  | CommentNotFound
  | CommentAlreadyHidden
  | ReportReasonRequired
  | ReportLimitReached
  | NotUnique

text \<open>
  The module \<^verbatim>\<open>./lib/access\<close> is not among the sources (the tests replace it by mocks), so
  its three functions are parameters of every handler: \<open>requireUser\<close> is the outcome of
  \<^verbatim>\<open>requireUser(ctx)\<close> for the request (the authenticated user, whose \<^verbatim>\<open>_id\<close> is the
  \<^verbatim>\<open>userId\<close> it returns with it; \<open>None\<close> when it throws), \<open>assertModerator\<close> and
  \<open>assertAdmin\<close> tell whether the check lets a user through (it throws otherwise). A throw
  of one of the three is the error \<open>AccessError\<close>.
\<close>

record access =
  requireUser :: "user option"
  assertModerator :: "user \<Rightarrow> bool"
  assertAdmin :: "user \<Rightarrow> bool"

definition MAX_ACTIVE_REPORTS_PER_USER :: int where
  "MAX_ACTIVE_REPORTS_PER_USER = 20"

definition AUTO_HIDE_REPORT_THRESHOLD :: int where
  "AUTO_HIDE_REPORT_THRESHOLD = 3"

subsection \<open>Store operations\<close>

text \<open>JavaScript truthiness of an optional number: \<^verbatim>\<open>undefined\<close> and \<open>0\<close> are falsy.\<close>

definition truthy :: "int option \<Rightarrow> bool" where
  "truthy v = (case v of None \<Rightarrow> False | Some n \<Rightarrow> n \<noteq> 0)"

text \<open>
  \<^verbatim>\<open>ctx.db.patch(id, fields)\<close>: the stored document with the given fields replaced (a
  field given as \<^verbatim>\<open>undefined\<close> is removed). The handlers patch only a document they have
  just read.
\<close>

definition patchComment :: "Id \<Rightarrow> (comment \<Rightarrow> comment) \<Rightarrow> db \<Rightarrow> db" where
  "patchComment cid f d =
     (case comments d cid of
        None \<Rightarrow> d
      | Some c \<Rightarrow> d\<lparr>comments := (comments d)(cid := Some (f c))\<rparr>)"

text \<open>
  Modelled from the spec: \<^verbatim>\<open>insertStatEvent\<close> of the module \<^verbatim>\<open>./skillStatEvents\<close>, which is
  not among the sources. The specification has it as \<^verbatim>\<open>emit(skillId, kind)\<close>, "fire-and-forget
  increment/decrement, no return value relied upon by the core"; a call is recorded by
  appending the event.
\<close>

definition insertStatEvent :: "Id \<Rightarrow> StatKind \<Rightarrow> db \<Rightarrow> db" where
  "insertStatEvent sid k d = d\<lparr>statEvents := statEvents d @ [\<lparr>se_skillId = sid, kind = k\<rparr>]\<rparr>"

definition insertAuditLog :: "auditLog \<Rightarrow> db \<Rightarrow> db" where
  "insertAuditLog a d = d\<lparr>auditLogs := auditLogs d @ [a]\<rparr>"

definition insertReport :: "Id \<Rightarrow> Id \<Rightarrow> Id \<Rightarrow> jsString \<Rightarrow> int \<Rightarrow> db \<Rightarrow> db" where
  "insertReport cid sid uid rsn now d =
     d\<lparr>commentReports := commentReports d @
          [\<lparr>r_id = nextId d, r_commentId = cid, r_skillId = sid, r_userId = uid,
            r_reason = rsn, r_createdAt = now\<rparr>],
       nextId := Suc (nextId d)\<rparr>"

definition deleteReport :: "Id \<Rightarrow> db \<Rightarrow> db" where
  "deleteReport rid d = d\<lparr>commentReports := filter (\<lambda>r. r_id r \<noteq> rid) (commentReports d)\<rparr>"

definition deleteComment :: "Id \<Rightarrow> db \<Rightarrow> db" where
  "deleteComment cid d = d\<lparr>comments := (comments d)(cid := None)\<rparr>"

text \<open>
  \<^verbatim>\<open>.unique()\<close> of a query: the only row, \<^verbatim>\<open>null\<close> when there is none; the store throws
  when the query has more than one row.
\<close>

definition unique :: "'a list \<Rightarrow> error + 'a option" where
  "unique xs = (case xs of [] \<Rightarrow> Inr None | [x] \<Rightarrow> Inr (Some x) | _ \<Rightarrow> Inl NotUnique)"

subsection \<open>getCommentStatus, isCommentVisible\<close>

definition getCommentStatus :: "comment \<Rightarrow> CommentStatus" where
  "getCommentStatus c =
     (case moderationStatus c of
        Some s \<Rightarrow> s
      | None \<Rightarrow> (if truthy (softDeletedAt c) then Hidden else Active))"

definition isCommentVisible :: "comment \<Rightarrow> bool" where
  "isCommentVisible c = (\<not> truthy (softDeletedAt c) \<and> getCommentStatus c = Active)"

subsection \<open>removeHandler\<close>

definition removeHandler :: "access \<Rightarrow> int \<Rightarrow> Id \<Rightarrow> db \<Rightarrow> (error + unit) \<times> db" where
  "removeHandler acc now commentId d =
     (case requireUser acc of
        None \<Rightarrow> (Inl AccessError, d)
      | Some usr \<Rightarrow>
         (case comments d commentId of
            None \<Rightarrow> (Inl CommentNotFound, d)
          | Some c \<Rightarrow>
              if \<not> isCommentVisible c then (Inr (), d)
              else
                let isOwner = (userId c = u_id usr) in
                if \<not> isOwner \<and> \<not> assertModerator acc usr then (Inl AccessError, d)
                else
                  let d1 = patchComment commentId
                             (\<lambda>x. x\<lparr>softDeletedAt := Some now,
                                     deletedBy := Some (u_id usr),
                                     moderationStatus := Some Removed,
                                     moderationReason :=
                                       Some (if isOwner then ''manual.user_delete''
                                             else ''manual.moderator_delete''),
                                     moderationNotes := None,
                                     lastReviewedAt := Some now\<rparr>) d;
                      d2 = insertStatEvent (skillId c) StatUncomment d1;
                      d3 = insertAuditLog
                             \<lparr>actorUserId = u_id usr, action = ''comment.delete'',
                               targetType = ''comment'', targetId = commentId,
                               metadata_skillId = skillId c, metadata_reportCount = None,
                               a_createdAt = now\<rparr> d2
                  in (Inr (), d3)))"

subsection \<open>countActiveReportsForUser\<close>

text \<open>
  The loop over the reporter's rows, with the running \<open>count\<close>; \<^verbatim>\<open>continue\<close> goes on with
  the rest and the same count, \<^verbatim>\<open>break\<close> returns the count.
\<close>

fun countActiveLoop :: "db \<Rightarrow> commentReport list \<Rightarrow> int \<Rightarrow> int" where
  "countActiveLoop d [] count = count"
| "countActiveLoop d (report # rest) count =
     (case comments d (r_commentId report) of
        None \<Rightarrow> countActiveLoop d rest count
      | Some c \<Rightarrow>
          if \<not> isCommentVisible c then countActiveLoop d rest count
          else
            (case users d (userId c) of
               None \<Rightarrow> countActiveLoop d rest count
             | Some owner \<Rightarrow>
                 if truthy (deletedAt owner) \<or> truthy (deactivatedAt owner)
                 then countActiveLoop d rest count
                 else
                   let count' = count + 1 in
                   if count' \<ge> MAX_ACTIVE_REPORTS_PER_USER then count'
                   else countActiveLoop d rest count'))"

definition countActiveReportsForUser :: "db \<Rightarrow> Id \<Rightarrow> int" where
  "countActiveReportsForUser d uid =
     countActiveLoop d (filter (\<lambda>r. r_userId r = uid) (commentReports d)) 0"

subsection \<open>reportHandler\<close>

datatype reportResult = ReportResult (reported: bool) (alreadyReported: bool)

definition reportHandler ::
    "access \<Rightarrow> int \<Rightarrow> Id \<Rightarrow> jsString \<Rightarrow> db \<Rightarrow> (error + reportResult) \<times> db" where
  "reportHandler acc now commentId rsn d =
     (case requireUser acc of
        None \<Rightarrow> (Inl AccessError, d)
      | Some usr \<Rightarrow>
         (case comments d commentId of
            None \<Rightarrow> (Inl CommentNotFound, d)
          | Some c \<Rightarrow>
              if getCommentStatus c = Removed then (Inl CommentNotFound, d)
              else if \<not> isCommentVisible c then (Inl CommentAlreadyHidden, d)
              else
                let reason = trim rsn in
                if reason = [] then (Inl ReportReasonRequired, d)
                else
                  (case unique (filter (\<lambda>r. r_commentId r = commentId \<and> r_userId r = u_id usr)
                                  (commentReports d)) of
                     Inl e \<Rightarrow> (Inl e, d)
                   | Inr (Some existing) \<Rightarrow> (Inr (ReportResult False True), d)
                   | Inr None \<Rightarrow>
                       let activeReports = countActiveReportsForUser d (u_id usr) in
                       if activeReports \<ge> MAX_ACTIVE_REPORTS_PER_USER
                       then (Inl ReportLimitReached, d)
                       else
                         let d1 = insertReport commentId (skillId c) (u_id usr)
                                    (take 500 reason) now d;
                             nextReportCount =
                               (case reportCount c of None \<Rightarrow> 0 | Some n \<Rightarrow> n) + 1;
                             shouldAutoHide =
                               (nextReportCount > AUTO_HIDE_REPORT_THRESHOLD
                                \<and> isCommentVisible c);
                             d2 = patchComment commentId
                                    (\<lambda>x. let y = x\<lparr>reportCount := Some nextReportCount,
                                                     lastReportedAt := Some now\<rparr>
                                         in if shouldAutoHide
                                            then y\<lparr>softDeletedAt := Some now,
                                                   moderationStatus := Some Hidden,
                                                   moderationReason := Some ''auto.reports'',
                                                   moderationNotes :=
                                                     Some ''Auto-hidden after 4 unique reports.'',
                                                   hiddenAt := Some now,
                                                   lastReviewedAt := Some now,
                                                   deletedBy := None\<rparr>
                                            else y) d1;
                             d3 = (if shouldAutoHide
                                   then insertAuditLog
                                          \<lparr>actorUserId = u_id usr,
                                            action = ''comment.auto_hide'',
                                            targetType = ''comment'', targetId = commentId,
                                            metadata_skillId = skillId c,
                                            metadata_reportCount = Some nextReportCount,
                                            a_createdAt = now\<rparr>
                                          (insertStatEvent (skillId c) StatUncomment d2)
                                   else d2)
                         in (Inr (ReportResult True False), d3))))"

subsection \<open>setSoftDeletedHandler\<close>

definition setSoftDeletedHandler ::
    "access \<Rightarrow> int \<Rightarrow> Id \<Rightarrow> bool \<Rightarrow> db \<Rightarrow> (error + unit) \<times> db" where
  "setSoftDeletedHandler acc now commentId deleted d =
     (case requireUser acc of
        None \<Rightarrow> (Inl AccessError, d)
      | Some usr \<Rightarrow>
          if \<not> assertModerator acc usr then (Inl AccessError, d)
          else
            (case comments d commentId of
               None \<Rightarrow> (Inl CommentNotFound, d)
             | Some c \<Rightarrow>
                 let beforeVisible = isCommentVisible c;
                     patch = (if deleted
                              then (\<lambda>x. x\<lparr>softDeletedAt := Some now,
                                            deletedBy := Some (u_id usr),
                                            moderationStatus := Some Hidden,
                                            moderationReason := Some ''manual.moderation'',
                                            moderationNotes := Some ''Hidden by moderator.'',
                                            hiddenAt := Some now,
                                            lastReviewedAt := Some now\<rparr>)
                              else (\<lambda>x. x\<lparr>softDeletedAt := None,
                                            deletedBy := None,
                                            moderationStatus := Some Active,
                                            moderationReason := None,
                                            moderationNotes := None,
                                            hiddenAt := None,
                                            lastReviewedAt := Some now\<rparr>));
                     afterVisible = (\<not> deleted);
                     d1 = patchComment commentId patch d;
                     d2 = (if beforeVisible \<and> \<not> afterVisible
                           then insertStatEvent (skillId c) StatUncomment d1
                           else if \<not> beforeVisible \<and> afterVisible
                           then insertStatEvent (skillId c) StatComment d1
                           else d1);
                     d3 = insertAuditLog
                            \<lparr>actorUserId = u_id usr,
                              action = (if deleted then ''comment.hide'' else ''comment.restore''),
                              targetType = ''comment'', targetId = commentId,
                              metadata_skillId = skillId c, metadata_reportCount = None,
                              a_createdAt = now\<rparr> d2
                 in (Inr (), d3)))"

subsection \<open>hardDeleteHandler\<close>

datatype deleteResult = DeleteResult (deleted: bool)

definition hardDeleteHandler ::
    "access \<Rightarrow> int \<Rightarrow> Id \<Rightarrow> db \<Rightarrow> (error + deleteResult) \<times> db" where
  "hardDeleteHandler acc now commentId d =
     (case requireUser acc of
        None \<Rightarrow> (Inl AccessError, d)
      | Some usr \<Rightarrow>
          if \<not> assertAdmin acc usr then (Inl AccessError, d)
          else
            (case comments d commentId of
               None \<Rightarrow> (Inr (DeleteResult False), d)
             | Some c \<Rightarrow>
                 let beforeVisible = isCommentVisible c;
                     reports = filter (\<lambda>r. r_commentId r = commentId) (commentReports d);
                     d1 = fold (\<lambda>report. deleteReport (r_id report)) reports d;
                     d2 = deleteComment commentId d1;
                     d3 = (if beforeVisible
                           then insertStatEvent (skillId c) StatUncomment d2 else d2);
                     d4 = insertAuditLog
                            \<lparr>actorUserId = u_id usr, action = ''comment.hard_delete'',
                              targetType = ''comment'', targetId = commentId,
                              metadata_skillId = skillId c,
                              metadata_reportCount = Some (int (length reports)),
                              a_createdAt = now\<rparr> d3
                 in (Inr (DeleteResult True), d4)))"

section \<open>Structural fingerprint (toStructuralFingerprint, src/convex/comments.ts)\<close>

subsection \<open>stripFrontmatter\<close>

text \<open>
  \<^verbatim>\<open>raw.replace(/^---\s*\n[\s\S]*?\n---\s*\n?/m, '')\<close>: the first match of the pattern is
  removed. The pattern has the flag \<^verbatim>\<open>m\<close>, so \<^verbatim>\<open>^\<close> holds at the start of the text and after
  every line terminator; the matcher tries the positions from left to right.

  \<open>matchFrontmatter s\<close> is the match of the pattern's body at the start of \<open>s\<close>, as the
  rest of the text after the match:
  \<^item> \<^verbatim>\<open>---\<close>;
  \<^item> \<^verbatim>\<open>\s*\n\<close>: white space up to a line feed of the white-space run that follows; the
    quantifier is greedy, so the line feeds of the run are tried from the last to the first
    (\<open>afterNewlines\<close> lists what follows each of them);
  \<^item> \<^verbatim>\<open>[\s\S]*?\n---\<close>: lazily, up to the first line feed followed by \<^verbatim>\<open>---\<close>
    (\<open>findClose\<close>);
  \<^item> \<^verbatim>\<open>\s*\n?\<close>: the whole white-space run that follows (after it, no line feed is left
    for \<^verbatim>\<open>\n?\<close>).
\<close>

definition isLineTerminator :: "nat \<Rightarrow> bool" where
  "isLineTerminator c = (c = 10 \<or> c = 13 \<or> c = 8232 \<or> c = 8233)"

fun findClose :: "jsString \<Rightarrow> jsString option" where
  "findClose [] = None"
| "findClose (c # cs) =
     (if c = 10 \<and> take 3 cs = js ''---'' then Some (drop 3 cs) else findClose cs)"

fun afterNewlines :: "jsString \<Rightarrow> jsString list" where
  "afterNewlines [] = []"
| "afterNewlines (c # cs) =
     (if isSpace c then (if c = 10 then [cs] else []) @ afterNewlines cs else [])"

definition matchFrontmatter :: "jsString \<Rightarrow> jsString option" where
  "matchFrontmatter s =
     (if take 3 s = js ''---''
      then (case List.map_filter findClose (rev (afterNewlines (drop 3 s))) of
              [] \<Rightarrow> None
            | rest # _ \<Rightarrow> Some (dropWhile isSpace rest))
      else None)"

text \<open>
  The search for the first match: \<open>atLineStart\<close> tells whether \<^verbatim>\<open>^\<close> holds at the current
  position. The text before the match is kept, the match is dropped, the rest follows
  unchanged.
\<close>

fun stripFrom :: "bool \<Rightarrow> jsString \<Rightarrow> jsString" where
  "stripFrom atLineStart [] = []"
| "stripFrom atLineStart (c # cs) =
     (case (if atLineStart then matchFrontmatter (c # cs) else None) of
        Some rest \<Rightarrow> rest
      | None \<Rightarrow> c # stripFrom (isLineTerminator c) cs)"

definition stripFrontmatter :: "jsString \<Rightarrow> jsString" where
  "stripFrontmatter raw = stripFrom True raw"

subsection \<open>tokenizeWords, wordBucket\<close>

text \<open>
  \<^verbatim>\<open>text.toLowerCase()\<close>, as far as the words depend on it: an ASCII capital becomes its
  small letter, and the two characters outside ASCII whose lower-case form has an ASCII
  letter are mapped as the Unicode tables map them (U+0130 to \<^verbatim>\<open>i\<close> and U+0307, the Kelvin
  sign U+212A to \<^verbatim>\<open>k\<close>). Every other code unit is left as it is: the lower-case form of
  such a character has no ASCII character, so it separates words either way.
\<close>

definition toLowerCase :: "jsString \<Rightarrow> jsString" where
  "toLowerCase s =
     concat (map (\<lambda>c. if 65 \<le> c \<and> c \<le> 90 then [c + 32]
                      else if c = 304 then [105, 775]
                      else if c = 8490 then [107]
                      else [c]) s)"

definition isWordStart :: "nat \<Rightarrow> bool" where
  "isWordStart c = ((97 \<le> c \<and> c \<le> 122) \<or> (48 \<le> c \<and> c \<le> 57))"

definition isWordChar :: "nat \<Rightarrow> bool" where
  "isWordChar c = (isWordStart c \<or> c = 39 \<or> c = 45)"

text \<open>
  \<^verbatim>\<open>text.match(/[a-z0-9][a-z0-9'-]*/g)\<close>: the matches from left to right, each as long as
  possible, none overlapping another (\<^verbatim>\<open>null\<close>, read as the empty list, when there is
  none).
\<close>

function matchWords :: "jsString \<Rightarrow> jsString list" where
  "matchWords [] = []"
| "matchWords (c # cs) =
     (if isWordStart c
      then (c # takeWhile isWordChar cs) # matchWords (dropWhile isWordChar cs)
      else matchWords cs)"
  by pat_completeness auto
termination
  by (relation "measure length") (auto simp: le_imp_less_Suc length_dropWhile_le)

definition tokenizeWords :: "jsString \<Rightarrow> jsString list" where
  "tokenizeWords txt = filter (\<lambda>word. length word > 1) (matchWords (toLowerCase txt))"

definition wordBucket :: "jsString \<Rightarrow> jsString" where
  "wordBucket txt =
     (let words = length (tokenizeWords txt) in
      if words \<le> 2 then js ''s'' else if words \<le> 6 then js ''m'' else js ''l'')"

subsection \<open>toStructuralFingerprint\<close>

text \<open>\<^verbatim>\<open>body.split('\n')\<close>: the pieces between line feeds; never the empty list.\<close>

fun splitLines :: "jsString \<Rightarrow> jsString list" where
  "splitLines [] = [[]]"
| "splitLines (c # cs) =
     (if c = 10 then [] # splitLines cs
      else (case splitLines cs of [] \<Rightarrow> [[c]] | l # ls \<Rightarrow> (c # l) # ls))"

text \<open>\<^verbatim>\<open>tokens.join('|')\<close>\<close>

fun joinWith :: "jsString \<Rightarrow> jsString list \<Rightarrow> jsString" where
  "joinWith sep [] = []"
| "joinWith sep [x] = x"
| "joinWith sep (x # y # ys) = x @ sep @ joinWith sep (y # ys)"

definition isDigit :: "nat \<Rightarrow> bool" where
  "isDigit c = (48 \<le> c \<and> c \<le> 57)"

text \<open>\<^verbatim>\<open>/^[-*]\s+/\<close>: the test, and the line with the match removed.\<close>

definition isBullet :: "jsString \<Rightarrow> bool" where
  "isBullet line =
     (case line of
        c # d # _ \<Rightarrow> (c = 45 \<or> c = 42) \<and> isSpace d
      | _ \<Rightarrow> False)"

definition stripBullet :: "jsString \<Rightarrow> jsString" where
  "stripBullet line = dropWhile isSpace (tl line)"

text \<open>\<^verbatim>\<open>/^\d+\.\s+/\<close>: the test, and the line with the match removed.\<close>

definition isNumbered :: "jsString \<Rightarrow> bool" where
  "isNumbered line =
     (takeWhile isDigit line \<noteq> [] \<and>
      (case dropWhile isDigit line of
         c # d # _ \<Rightarrow> c = 46 \<and> isSpace d
       | _ \<Rightarrow> False))"

definition stripNumbered :: "jsString \<Rightarrow> jsString" where
  "stripNumbered line = dropWhile isSpace (tl (dropWhile isDigit line))"

text \<open>The function mapped over the lines.\<close>

definition lineToken :: "jsString \<Rightarrow> jsString" where
  "lineToken line =
     (if take 4 line = js ''### '' then js ''h3:'' @ wordBucket (drop 4 line)
      else if take 3 line = js ''## '' then js ''h2:'' @ wordBucket (drop 3 line)
      else if take 2 line = js ''# '' then js ''h1:'' @ wordBucket (drop 2 line)
      else if isBullet line then js ''b:'' @ wordBucket (stripBullet line)
      else if isNumbered line then js ''n:'' @ wordBucket (stripNumbered line)
      else js ''p:'' @ wordBucket line)"

definition toStructuralFingerprint :: "jsString \<Rightarrow> jsString" where
  "toStructuralFingerprint markdown =
     (let body = stripFrontmatter markdown;
          lines = take 80 (filter (\<lambda>line. line \<noteq> []) (map trim (splitLines body)))
      in joinWith (js ''|'') (map lineToken lines))"

subsection \<open>The fingerprint as the specification words it\<close>

text \<open>
  The specification's algorithm: "strip metadata block", the block being the leading one
  ("stripping leading metadata header is mandatory before measurement"), then the first
  80 non-blank trimmed lines, one token per line, joined by the delimiter. The leading
  block is the match of the same pattern at the very start of the text.
\<close>

definition stripLeadingBlock :: "jsString \<Rightarrow> jsString" where
  "stripLeadingBlock raw = (case matchFrontmatter raw of Some rest \<Rightarrow> rest | None \<Rightarrow> raw)"

definition fingerprintLeading :: "jsString \<Rightarrow> jsString" where
  "fingerprintLeading markdown =
     (let body = stripLeadingBlock markdown;
          lines = take 80 (filter (\<lambda>line. line \<noteq> []) (map trim (splitLines body)))
      in joinWith (js ''|'') (map lineToken lines))"

section \<open>Notions used to state the theorems about reports\<close>

text \<open>
  The rows a reporter already has for a comment (the query on the index
  \<^verbatim>\<open>by_comment_user\<close>), the stored report counter (\<^verbatim>\<open>comment.reportCount ?? 0\<close>), and an
  active report in the words of the specification: a report whose target comment still
  exists and is visible and whose target comment's author exists and is neither deleted
  nor deactivated.
\<close>

definition existingReports :: "db \<Rightarrow> Id \<Rightarrow> Id \<Rightarrow> commentReport list" where
  "existingReports d cid uid =
     filter (\<lambda>r. r_commentId r = cid \<and> r_userId r = uid) (commentReports d)"

definition reportCountOf :: "comment \<Rightarrow> int" where
  "reportCountOf c = (case reportCount c of None \<Rightarrow> 0 | Some n \<Rightarrow> n)"

definition activeReport :: "db \<Rightarrow> commentReport \<Rightarrow> bool" where
  "activeReport d r =
     (case comments d (r_commentId r) of
        None \<Rightarrow> False
      | Some c \<Rightarrow>
          isCommentVisible c \<and>
          (case users d (userId c) of
             None \<Rightarrow> False
           | Some owner \<Rightarrow> \<not> truthy (deletedAt owner) \<and> \<not> truthy (deactivatedAt owner)))"

definition activeReportsOf :: "db \<Rightarrow> Id \<Rightarrow> commentReport list" where
  "activeReportsOf d uid =
     filter (activeReport d) (filter (\<lambda>r. r_userId r = uid) (commentReports d))"

text \<open>
  A sequence of report requests against one comment, each a transaction of its own, run
  one after the other: a request is the caller's access context, the time of the request
  and the reason given. \<open>reportAll\<close> returns the outcome of every request and the final
  store.
\<close>

fun reportAll ::
    "Id \<Rightarrow> (access \<times> int \<times> jsString) list \<Rightarrow> db \<Rightarrow> (error + reportResult) list \<times> db" where
  "reportAll cid [] d = ([], d)"
| "reportAll cid (call # calls) d =
     (case call of (acc, now, rsn) \<Rightarrow>
        (case reportHandler acc now cid rsn d of (r, d1) \<Rightarrow>
           (case reportAll cid calls d1 of (rs, d2) \<Rightarrow> (r # rs, d2))))"

definition reporterOf :: "access \<times> int \<times> jsString \<Rightarrow> Id option" where
  "reporterOf call = map_option u_id (requireUser (fst call))"

definition newReporter :: "db \<Rightarrow> Id \<Rightarrow> access \<times> int \<times> jsString \<Rightarrow> bool" where
  "newReporter d cid call =
     (case call of (acc, now, rsn) \<Rightarrow>
        (case requireUser acc of
           None \<Rightarrow> False
         | Some usr \<Rightarrow>
             trim rsn \<noteq> [] \<and> existingReports d cid (u_id usr) = [] \<and>
             countActiveReportsForUser d (u_id usr) < MAX_ACTIVE_REPORTS_PER_USER))"

definition distinctNewReporters :: "db \<Rightarrow> Id \<Rightarrow> (access \<times> int \<times> jsString) list \<Rightarrow> bool" where
  "distinctNewReporters d cid calls =
     (distinct (map reporterOf calls) \<and> list_all (newReporter d cid) calls)"

definition authenticated :: "access \<times> int \<times> jsString \<Rightarrow> bool" where
  "authenticated call = (requireUser (fst call) \<noteq> None)"

section \<open>Example stores\<close>

text \<open>
  Concrete documents and stores at which the theorems below are evaluated. \<open>exAccess\<close> is
  one instance of the access parameters: the caller is the given user, the moderator gate
  lets moderators and administrators through and the administrator gate administrators.
\<close>

definition exComment :: "int option \<Rightarrow> comment" where
  "exComment n =
     \<lparr>skillId = 4, userId = 7, body = js ''suspicious command'', createdAt = 10,
      softDeletedAt = None, deletedBy = None, moderationStatus = Some Active,
      moderationReason = None, moderationNotes = None, reportCount = n,
      lastReportedAt = None, hiddenAt = None, lastReviewedAt = None\<rparr>"

definition exHidden :: comment where
  "exHidden = (exComment (Some 4))
     \<lparr>softDeletedAt := Some 30, moderationStatus := Some Hidden,
      moderationReason := Some ''auto.reports'', hiddenAt := Some 30\<rparr>"

definition exRemoved :: comment where
  "exRemoved = (exComment None)
     \<lparr>softDeletedAt := Some 30, deletedBy := Some 7, moderationStatus := Some Removed,
      moderationReason := Some ''manual.user_delete''\<rparr>"

definition exUser :: "Id \<Rightarrow> Role \<Rightarrow> user" where
  "exUser i r = \<lparr>u_id = i, role = r, deletedAt = None, deactivatedAt = None\<rparr>"

definition exAccess :: "user \<Rightarrow> access" where
  "exAccess u =
     \<lparr>requireUser = Some u,
      assertModerator = (\<lambda>x. role x = RoleModerator \<or> role x = RoleAdmin),
      assertAdmin = (\<lambda>x. role x = RoleAdmin)\<rparr>"

definition exReporter :: "Id \<Rightarrow> access" where
  "exReporter i = exAccess (exUser i RoleUser)"

text \<open>
  A store with the one comment \<open>1\<close> (document \<open>c\<close>) whose author is user \<open>7\<close>, and the
  given report rows.
\<close>

definition exDb :: "comment \<Rightarrow> commentReport list \<Rightarrow> db" where
  "exDb c reports =
     \<lparr>comments = (\<lambda>i. if i = 1 then Some c else None),
      users = (\<lambda>i. if i = 7 then Some (exUser 7 RoleUser) else None),
      commentReports = reports, auditLogs = [], statEvents = [], nextId = 50\<rparr>"

definition exReport :: "Id \<Rightarrow> Id \<Rightarrow> Id \<Rightarrow> commentReport" where
  "exReport rid cid uid =
     \<lparr>r_id = rid, r_commentId = cid, r_skillId = 4, r_userId = uid,
      r_reason = js ''spam'', r_createdAt = 20\<rparr>"

text \<open>
  A store in which reporter \<open>9\<close> has reported the twenty comments \<open>100..119\<close>, all by
  author \<open>7\<close> and all visible except that comment \<open>100\<close> is the document \<open>c100\<close>; comment
  \<open>1\<close> is visible; \<open>extra\<close> are further report rows.
\<close>

definition exCapDb :: "comment \<Rightarrow> commentReport list \<Rightarrow> db" where
  "exCapDb c100 extra =
     \<lparr>comments = (\<lambda>i. if i = 100 then Some c100
                       else if i = 1 \<or> (100 < i \<and> i < 120) then Some (exComment None)
                       else None),
      users = (\<lambda>i. if i = 7 then Some (exUser 7 RoleUser) else None),
      commentReports = map (\<lambda>i. exReport i (100 + i) 9) [0..<20] @ extra,
      auditLogs = [], statEvents = [], nextId = 50\<rparr>"

text \<open>
  Four first-time reporters of comment \<open>1\<close>, and two later requests: one by a fifth user
  and one by the first reporter again.
\<close>

definition exFirst :: "(access \<times> int \<times> jsString) list" where
  "exFirst = [(exReporter 11, 60, js ''spam''), (exReporter 12, 61, js ''abuse''),
              (exReporter 13, 62, js ''spam''), (exReporter 14, 63, js ''malware'')]"

definition exLater :: "(access \<times> int \<times> jsString) list" where
  "exLater = [(exReporter 15, 64, js ''spam''), (exReporter 11, 65, js ''spam'')]"

text \<open>
  Two documents, with line feeds (code unit 10) between the lines. \<open>exDocFront\<close> begins
  with a metadata block; \<open>exDocRules\<close> has none, but two horizontal rules further down:
  \<^verbatim>\<open># Deploy helper\<close>, \<^verbatim>\<open>---\<close>, \<^verbatim>\<open>## Usage\<close>, \<^verbatim>\<open>- run the deploy script\<close>, \<^verbatim>\<open>---\<close>,
  \<^verbatim>\<open>Maintained by the platform team\<close>.
\<close>

definition exDocFront :: jsString where
  "exDocFront =
     js ''---'' @ [10] @ js ''name: deploy'' @ [10] @ js ''---'' @ [10] @
     js ''# Deploy helper'' @ [10, 10] @ js ''- run the deploy script'' @ [10]"

definition exDocRules :: jsString where
  "exDocRules =
     js ''# Deploy helper'' @ [10] @ js ''---'' @ [10] @ js ''## Usage'' @ [10] @
     js ''- run the deploy script'' @ [10] @ js ''---'' @ [10] @
     js ''Maintained by the platform team'' @ [10]"

text \<open>
  A reason that is blank without an ASCII blank in it: a no-break space, a zero-width
  no-break space (byte order mark) and a line separator.
\<close>

definition exBlank :: jsString where
  "exBlank = [160, 65279, 8232]"


section \<open>Theorems: quality gate\<close>

lemma reasons_distinct:
  "reason_spam \<noteq> reason_thin"
  by (simp add: reason_spam_def reason_thin_def)

text \<open>
  Claim C4. The quality score is 100 minus the sum of the penalties that apply (28 for
  fewer than 250 body characters, 24 for fewer than 80 body words, 14 for a unique-word
  ratio below 0.45, 10 for fewer than 2 headings, 8 for fewer than 3 bullets, 9 per
  marketing-phrase hit capped at 28 in total, 20 for a generic summary), floored at 0.
\<close>

theorem scoreQuality_penalties:
  "scoreQuality s =
     max 0 (100 -
       ((if bodyChars s < 250 then 28 else 0) +
        (if bodyWords s < 80 then 24 else 0) +
        (if uniqueWordRatio s < 45 / 100 then 14 else 0) +
        (if headingCount s < 2 then 10 else 0) +
        (if bulletCount s < 3 then 8 else 0) +
        min 28 (9 * templateMarkerHits s) +
        (if genericSummary s then 20 else 0)))"
  by (simp add: scoreQuality_def Let_def mult.commute)

theorem scoreQuality_penalties_witness:
  "scoreQuality \<lparr> bodyChars = 200, bodyWords = 90, uniqueWordRatio = 3 / 10,
       headingCount = 1, bulletCount = 5, templateMarkerHits = 4, genericSummary = True,
       structuralFingerprint = ''p:l'' \<rparr> = 0
   \<and> scoreQuality \<lparr> bodyChars = 300, bodyWords = 90, uniqueWordRatio = 1 / 2,
       headingCount = 1, bulletCount = 5, templateMarkerHits = 2, genericSummary = False,
       structuralFingerprint = ''p:l'' \<rparr> = 72"
  by (simp add: scoreQuality_penalties)

text \<open>
  Claim C3. The decision engine rejects exactly when one of the four hard-reject triggers
  holds (word floor, character floor, three marketing phrases with fewer than 120 words,
  duplicate ceiling, each by tier); the reject reason is the repeated-template-spam reason
  exactly when the duplicate trigger fired and the thin-content reason otherwise; a
  submission that is not rejected is quarantined exactly when its score is below the
  tier's ceiling, and passes otherwise.
\<close>

theorem evaluateQuality_decision:
  "((decision (evaluateQuality sig tier similar) = Reject) = hardRejects sig tier similar)
   \<and> (hardRejects sig tier similar \<longrightarrow>
        reason (evaluateQuality sig tier similar)
          = (if similar \<ge> duplicateCeiling tier then reason_spam else reason_thin))
   \<and> (\<not> hardRejects sig tier similar \<longrightarrow>
        decision (evaluateQuality sig tier similar)
          = (if scoreQuality sig < quarantineCeiling tier then Quarantine else Pass))"
proof (cases tier)
  case Low
  then show ?thesis
    by (simp add: evaluateQuality_def hardRejects_def Let_def)
next
  case Medium
  then show ?thesis
    by (simp add: evaluateQuality_def hardRejects_def Let_def)
next
  case Trusted
  then show ?thesis
    by (simp add: evaluateQuality_def hardRejects_def Let_def)
qed

theorem evaluateQuality_decision_witness:
  "hardRejects \<lparr> bodyChars = 2000, bodyWords = 500, uniqueWordRatio = 1 / 2,
       headingCount = 4, bulletCount = 6, templateMarkerHits = 0, genericSummary = False,
       structuralFingerprint = ''h1:s'' \<rparr> Low 5
   \<and> decision (evaluateQuality \<lparr> bodyChars = 2000, bodyWords = 500, uniqueWordRatio = 1 / 2,
       headingCount = 4, bulletCount = 6, templateMarkerHits = 0, genericSummary = False,
       structuralFingerprint = ''h1:s'' \<rparr> Low 5) = Reject
   \<and> reason (evaluateQuality \<lparr> bodyChars = 2000, bodyWords = 500, uniqueWordRatio = 1 / 2,
       headingCount = 4, bulletCount = 6, templateMarkerHits = 0, genericSummary = False,
       structuralFingerprint = ''h1:s'' \<rparr> Low 5) = reason_spam
   \<and> \<not> hardRejects \<lparr> bodyChars = 2000, bodyWords = 500, uniqueWordRatio = 1 / 2,
       headingCount = 4, bulletCount = 6, templateMarkerHits = 0, genericSummary = False,
       structuralFingerprint = ''h1:s'' \<rparr> Trusted 4
   \<and> decision (evaluateQuality \<lparr> bodyChars = 2000, bodyWords = 500, uniqueWordRatio = 1 / 2,
       headingCount = 4, bulletCount = 6, templateMarkerHits = 0, genericSummary = False,
       structuralFingerprint = ''h1:s'' \<rparr> Trusted 4) = Pass"
proof -
  let ?s = "\<lparr> bodyChars = 2000, bodyWords = 500, uniqueWordRatio = 1 / 2,
       headingCount = 4, bulletCount = 6, templateMarkerHits = 0, genericSummary = False,
       structuralFingerprint = ''h1:s'' \<rparr>"
  have r: "hardRejects ?s Low 5" and p: "\<not> hardRejects ?s Trusted 4"
    by (simp_all add: hardRejects_def)
  have sc: "scoreQuality ?s = 100"
    by (simp add: scoreQuality_def)
  from evaluateQuality_decision [of ?s Low 5] r
  have a: "decision (evaluateQuality ?s Low 5) = Reject
           \<and> reason (evaluateQuality ?s Low 5) = reason_spam"
    by simp
  from evaluateQuality_decision [of ?s Trusted 4] p sc
  have b: "decision (evaluateQuality ?s Trusted 4) = Pass"
    by simp
  from r p a b show ?thesis by blast
qed

section \<open>Theorems: comment moderation\<close>

subsection \<open>Facts about the example stores\<close>

lemma ex_visible: "isCommentVisible (exComment n)"
  by (simp add: isCommentVisible_def getCommentStatus_def exComment_def truthy_def)

lemma ex_hidden: "\<not> isCommentVisible exHidden" "getCommentStatus exHidden = Hidden"
  by (simp_all add: isCommentVisible_def getCommentStatus_def exHidden_def exComment_def truthy_def)

lemma ex_removed: "\<not> isCommentVisible exRemoved" "getCommentStatus exRemoved = Removed"
  by (simp_all add: isCommentVisible_def getCommentStatus_def exRemoved_def exComment_def truthy_def)

lemma ex_trim: "trim (js ''   '') = []" "trim (js '' spam '') = js ''spam''" "trim (js ''spam'') = js ''spam''"
  by (simp_all add: trim_def isSpace_def js_def)

lemma ex_blank: "trim exBlank = []"
  by (simp add: trim_def isSpace_def exBlank_def)

lemma ex_fields: "userId (exComment n) = 7" "skillId (exComment n) = 4"
  "reportCount (exComment n) = n"
  by (simp_all add: exComment_def)

lemma ex_upt20: "[0..<20] = [0,1,2,3,4,5,6,7,8,9,10,11,12,13,14,15,16,17,18,19::nat]"
  by (simp add: upt_rec)

lemma ex_cap_active:
  "length (activeReportsOf (exCapDb (exComment None) []) 9) = 20"
  "length (activeReportsOf (exCapDb exHidden []) 9) = 19"
  "length (activeReportsOf (exCapDb (exComment None) [exReport 20 1 9]) 9) = 21"
  using ex_visible [of None] ex_hidden(1)
  by (simp_all add: activeReportsOf_def activeReport_def exCapDb_def exReport_def ex_upt20
      exUser_def truthy_def ex_fields)

lemma ex_cap_existing:
  "existingReports (exCapDb c []) 1 9 = []"
  "existingReports (exCapDb c [exReport 20 1 9]) 1 9 = [exReport 20 1 9]"
  by (simp_all add: existingReports_def exCapDb_def exReport_def ex_upt20)


subsection \<open>The active-report count\<close>

lemma countActiveLoop_eq:
  "count < 20 \<Longrightarrow>
     countActiveLoop d rs count = min 20 (count + int (length (filter (activeReport d) rs)))"
proof (induction rs arbitrary: count)
  case Nil
  then show ?case by simp
next
  case (Cons r rs)
  show ?case
  proof (cases "activeReport d r")
    case False
    then have "countActiveLoop d (r # rs) count = countActiveLoop d rs count"
      by (auto simp: activeReport_def split: option.splits)
    with False Cons show ?thesis by simp
  next
    case True
    then have step: "countActiveLoop d (r # rs) count =
        (if count + 1 \<ge> 20 then count + 1 else countActiveLoop d rs (count + 1))"
      by (auto simp: activeReport_def MAX_ACTIVE_REPORTS_PER_USER_def Let_def split: option.splits)
    show ?thesis
    proof (cases "count + 1 \<ge> 20")
      case True
      with step \<open>activeReport d r\<close> Cons.prems show ?thesis by simp
    next
      case False
      then have "count + 1 < 20" by simp
      from Cons.IH [OF this] step False \<open>activeReport d r\<close> show ?thesis by simp
    qed
  qed
qed

lemma countActiveReportsForUser_eq:
  "countActiveReportsForUser d uid = min 20 (int (length (activeReportsOf d uid)))"
  by (simp add: countActiveReportsForUser_def countActiveLoop_eq activeReportsOf_def)

subsection \<open>One report request\<close>

lemma visible_status: "isCommentVisible c \<Longrightarrow> getCommentStatus c = Active"
  by (simp add: isCommentVisible_def)

text \<open>The checks on the target and the reason, in the handler's order.\<close>

lemma report_guards:
  assumes "requireUser acc = Some usr"
  shows "comments d cid = None \<Longrightarrow>
           reportHandler acc now cid rsn d = (Inl CommentNotFound, d)"
    and "comments d cid = Some c \<Longrightarrow> getCommentStatus c = Removed \<Longrightarrow>
           reportHandler acc now cid rsn d = (Inl CommentNotFound, d)"
    and "comments d cid = Some c \<Longrightarrow> getCommentStatus c \<noteq> Removed \<Longrightarrow> \<not> isCommentVisible c \<Longrightarrow>
           reportHandler acc now cid rsn d = (Inl CommentAlreadyHidden, d)"
    and "comments d cid = Some c \<Longrightarrow> isCommentVisible c \<Longrightarrow> trim rsn = [] \<Longrightarrow>
           reportHandler acc now cid rsn d = (Inl ReportReasonRequired, d)"
  using assms visible_status [of c]
  by (simp_all add: reportHandler_def)

text \<open>The store after a report that was accepted.\<close>

lemma report_new_result:
  assumes "requireUser acc = Some usr" "comments d cid = Some c" "isCommentVisible c"
    "trim rsn \<noteq> []" "existingReports d cid (u_id usr) = []"
    "countActiveReportsForUser d (u_id usr) < 20"
  shows "fst (reportHandler acc now cid rsn d) = Inr (ReportResult True False)"
    and "users (snd (reportHandler acc now cid rsn d)) = users d"
    and "commentReports (snd (reportHandler acc now cid rsn d)) =
           commentReports d @
             [\<lparr>r_id = nextId d, r_commentId = cid, r_skillId = skillId c,
               r_userId = u_id usr, r_reason = take 500 (trim rsn), r_createdAt = now\<rparr>]"
  using assms visible_status [of c]
  by (simp_all add: reportHandler_def existingReports_def unique_def Let_def
      MAX_ACTIVE_REPORTS_PER_USER_def insertReport_def patchComment_def
      insertAuditLog_def insertStatEvent_def)

lemma report_new_below:
  assumes "requireUser acc = Some usr" "comments d cid = Some c" "isCommentVisible c"
    "trim rsn \<noteq> []" "existingReports d cid (u_id usr) = []"
    "countActiveReportsForUser d (u_id usr) < 20"
    "reportCountOf c + 1 \<le> 3"
  shows "comments (snd (reportHandler acc now cid rsn d)) =
           (comments d)(cid := Some (c\<lparr>reportCount := Some (reportCountOf c + 1),
                                       lastReportedAt := Some now\<rparr>))"
    and "statEvents (snd (reportHandler acc now cid rsn d)) = statEvents d"
    and "auditLogs (snd (reportHandler acc now cid rsn d)) = auditLogs d"
  using assms visible_status [of c]
  by (simp_all add: reportHandler_def existingReports_def unique_def Let_def
      MAX_ACTIVE_REPORTS_PER_USER_def insertReport_def patchComment_def
      insertAuditLog_def insertStatEvent_def reportCountOf_def AUTO_HIDE_REPORT_THRESHOLD_def)

lemma report_new_hide:
  assumes "requireUser acc = Some usr" "comments d cid = Some c" "isCommentVisible c"
    "trim rsn \<noteq> []" "existingReports d cid (u_id usr) = []"
    "countActiveReportsForUser d (u_id usr) < 20"
    "reportCountOf c + 1 > 3"
  shows "comments (snd (reportHandler acc now cid rsn d)) =
           (comments d)(cid := Some (c\<lparr>reportCount := Some (reportCountOf c + 1),
                                       lastReportedAt := Some now,
                                       softDeletedAt := Some now,
                                       moderationStatus := Some Hidden,
                                       moderationReason := Some ''auto.reports'',
                                       moderationNotes := Some ''Auto-hidden after 4 unique reports.'',
                                       hiddenAt := Some now,
                                       lastReviewedAt := Some now,
                                       deletedBy := None\<rparr>))"
    and "statEvents (snd (reportHandler acc now cid rsn d)) =
           statEvents d @ [\<lparr>se_skillId = skillId c, kind = StatUncomment\<rparr>]"
    and "auditLogs (snd (reportHandler acc now cid rsn d)) =
           auditLogs d @ [\<lparr>actorUserId = u_id usr, action = ''comment.auto_hide'',
                            targetType = ''comment'', targetId = cid,
                            metadata_skillId = skillId c,
                            metadata_reportCount = Some (reportCountOf c + 1),
                            a_createdAt = now\<rparr>]"
  using assms visible_status [of c]
  by (simp_all add: reportHandler_def existingReports_def unique_def Let_def
      MAX_ACTIVE_REPORTS_PER_USER_def insertReport_def patchComment_def
      insertAuditLog_def insertStatEvent_def reportCountOf_def AUTO_HIDE_REPORT_THRESHOLD_def)

lemma report_hidden:
  assumes "requireUser acc = Some usr" "comments d cid = Some c"
    "moderationStatus c = Some Hidden"
  shows "reportHandler acc now cid rsn d = (Inl CommentAlreadyHidden, d)"
  using assms
  by (simp add: reportHandler_def getCommentStatus_def isCommentVisible_def)

lemma report_existing_no_write:
  assumes "requireUser acc = Some usr" "existingReports d cid (u_id usr) \<noteq> []"
  shows "snd (reportHandler acc now cid rsn d) = d"
    and "fst (reportHandler acc now cid rsn d) \<noteq> Inr (ReportResult True False)"
    and "fst (reportHandler acc now cid rsn d) \<noteq> Inl ReportLimitReached"
  using assms
  by (auto simp: reportHandler_def existingReports_def unique_def Let_def
      split: option.splits list.splits)

lemma report_existing_already:
  assumes "requireUser acc = Some usr" "existingReports d cid (u_id usr) = [r]"
    "comments d cid = Some c" "isCommentVisible c" "trim rsn \<noteq> []"
  shows "reportHandler acc now cid rsn d = (Inr (ReportResult False True), d)"
  using assms visible_status [of c]
  by (simp add: reportHandler_def existingReports_def unique_def)

lemma report_existing_many:
  assumes "requireUser acc = Some usr" "length (existingReports d cid (u_id usr)) > 1"
    "comments d cid = Some c" "isCommentVisible c" "trim rsn \<noteq> []"
  shows "reportHandler acc now cid rsn d = (Inl NotUnique, d)"
proof -
  from assms(2) obtain x y zs where "existingReports d cid (u_id usr) = x # y # zs"
    by (cases "existingReports d cid (u_id usr)" rule: list.exhaust)
       (auto simp: neq_Nil_conv)
  with assms(1,3,4,5) visible_status [of c] show ?thesis
    by (simp add: reportHandler_def existingReports_def unique_def)
qed


lemma report_below_cap:
  assumes "requireUser acc = Some usr" "existingReports d cid (u_id usr) = []"
    "length (activeReportsOf d (u_id usr)) < 20"
    "comments d cid = Some c" "isCommentVisible c" "trim rsn \<noteq> []"
  shows "fst (reportHandler acc now cid rsn d) = Inr (ReportResult True False)"
proof -
  from assms(3) have "countActiveReportsForUser d (u_id usr) < 20"
    by (simp add: countActiveReportsForUser_eq)
  with assms show ?thesis
    by (simp add: report_new_result(1))
qed

text \<open>
  The handler adds at most one report row, and only for a pair that has none: the
  uniqueness invariant of the data model (at most one row for a comment and a reporter)
  is kept.
\<close>

lemma report_rows:
  "commentReports (snd (reportHandler acc now cid rsn d)) = commentReports d
   \<or> (\<exists>(usr::user) (c::comment). requireUser acc = Some usr \<and> existingReports d cid (u_id usr) = []
          \<and> commentReports (snd (reportHandler acc now cid rsn d)) =
              commentReports d @
                [\<lparr>r_id = nextId d, r_commentId = cid, r_skillId = skillId c,
                  r_userId = u_id usr, r_reason = take 500 (trim rsn), r_createdAt = now\<rparr>])"
proof (cases "requireUser acc")
  case None
  then show ?thesis by (simp add: reportHandler_def)
next
  case (Some usr)
  show ?thesis
  proof (cases "existingReports d cid (u_id usr) = []")
    case False
    from report_existing_no_write(1) [OF Some False] show ?thesis by simp
  next
    case True
    note e = True
    show ?thesis
    proof (cases "\<exists>c. comments d cid = Some c \<and> isCommentVisible c \<and> trim rsn \<noteq> []
        \<and> countActiveReportsForUser d (u_id usr) < 20")
      case True
      then obtain c where c: "comments d cid = Some c" "isCommentVisible c" "trim rsn \<noteq> []"
        "countActiveReportsForUser d (u_id usr) < 20" by blast
      note r = report_new_result(3) [OF Some c(1,2,3) e c(4), of now]
      show ?thesis
        by (rule disjI2, rule exI [of _ usr], rule exI [of _ c]) (simp only: Some e r simp_thms)
    next
      case False
      with Some e have "snd (reportHandler acc now cid rsn d) = d"
        by (auto simp: reportHandler_def Let_def unique_def existingReports_def
            MAX_ACTIVE_REPORTS_PER_USER_def split: option.splits)
      then show ?thesis by simp
    qed
  qed
qed

lemma report_keeps_unique:
  assumes "length (existingReports d c' u') \<le> 1"
  shows "length (existingReports (snd (reportHandler acc now cid rsn d)) c' u') \<le> 1"
proof -
  from report_rows [of acc now cid rsn d] show ?thesis
  proof (elim disjE exE conjE)
    assume "commentReports (snd (reportHandler acc now cid rsn d)) = commentReports d"
    with assms show ?thesis by (simp add: existingReports_def)
  next
    fix usr :: user and c :: comment
    assume e: "existingReports d cid (u_id usr) = []"
      and rows: "commentReports (snd (reportHandler acc now cid rsn d)) =
              commentReports d @
                [\<lparr>r_id = nextId d, r_commentId = cid, r_skillId = skillId c,
                  r_userId = u_id usr, r_reason = take 500 (trim rsn), r_createdAt = now\<rparr>]"
    show ?thesis
    proof (cases "c' = cid \<and> u' = u_id usr")
      case True
      with e rows show ?thesis by (simp add: existingReports_def)
    next
      case False
      with rows assms show ?thesis by (auto simp: existingReports_def)
    qed
  qed
qed

subsection \<open>A sequence of report requests\<close>

lemma reportAll_Cons:
  "reportAll cid ((acc, now, rsn) # calls) d =
     (fst (reportHandler acc now cid rsn d)
        # fst (reportAll cid calls (snd (reportHandler acc now cid rsn d))),
      snd (reportAll cid calls (snd (reportHandler acc now cid rsn d))))"
  by (simp split: prod.splits)

lemma reportAll_append:
  "reportAll cid (xs @ ys) d =
     (fst (reportAll cid xs d) @ fst (reportAll cid ys (snd (reportAll cid xs d))),
      snd (reportAll cid ys (snd (reportAll cid xs d))))"
proof (induction xs arbitrary: d)
  case Nil
  show ?case by simp
next
  case (Cons x xs)
  obtain acc now rsn where x: "x = (acc, now, rsn)" by (cases x)
  show ?case
    unfolding x append_Cons reportAll_Cons Cons.IH by simp
qed

lemma reportAll_hidden:
  assumes "comments d cid = Some c" "moderationStatus c = Some Hidden"
    "list_all authenticated calls"
  shows "reportAll cid calls d = (replicate (length calls) (Inl CommentAlreadyHidden), d)"
  using assms(3)
proof (induction calls)
  case Nil
  show ?case by simp
next
  case (Cons x xs)
  obtain acc now rsn where x: "x = (acc, now, rsn)" by (cases x)
  from Cons.prems x obtain usr where u: "requireUser acc = Some usr"
    by (auto simp: authenticated_def)
  have h: "reportHandler acc now cid rsn d = (Inl CommentAlreadyHidden, d)"
    by (rule report_hidden [OF u assms(1) assms(2)])
  from Cons.prems have "list_all authenticated xs" by simp
  from Cons.IH [OF this] show ?case
    unfolding x reportAll_Cons h by simp
qed

lemma activeReport_patch:
  assumes "users d1 = users d" "comments d1 = (comments d)(cid := Some c')"
    "comments d cid = Some c" "isCommentVisible c' = isCommentVisible c"
    "userId c' = userId c"
  shows "activeReport d1 r = activeReport d r"
  using assms by (auto simp: activeReport_def split: option.splits)

lemma newReporter_preserved:
  assumes u: "requireUser acc = Some usr" and c: "comments d cid = Some c"
    and vis: "isCommentVisible c" and rsn: "trim rsn \<noteq> []"
    and ex: "existingReports d cid (u_id usr) = []"
    and cap: "countActiveReportsForUser d (u_id usr) < 20"
    and below: "reportCountOf c + 1 \<le> 3"
    and other: "reporterOf call \<noteq> Some (u_id usr)"
    and new: "newReporter d cid call"
  shows "newReporter (snd (reportHandler acc now cid rsn d)) cid call"
proof -
  let ?d1 = "snd (reportHandler acc now cid rsn d)"
  let ?c1 = "c\<lparr>reportCount := Some (reportCountOf c + 1), lastReportedAt := Some now\<rparr>"
  obtain acc2 now2 rsn2 where call: "call = (acc2, now2, rsn2)" by (cases call)
  from new call obtain v where v: "requireUser acc2 = Some v"
    and rsn2: "trim rsn2 \<noteq> []" and ex2: "existingReports d cid (u_id v) = []"
    and cap2: "countActiveReportsForUser d (u_id v) < MAX_ACTIVE_REPORTS_PER_USER"
    by (auto simp: newReporter_def split: option.splits)
  from other call v have ne: "u_id v \<noteq> u_id usr"
    by (simp add: reporterOf_def)
  have reps: "commentReports ?d1 = commentReports d @
      [\<lparr>r_id = nextId d, r_commentId = cid, r_skillId = skillId c,
        r_userId = u_id usr, r_reason = take 500 (trim rsn), r_createdAt = now\<rparr>]"
    by (rule report_new_result(3) [OF u c vis rsn ex cap])
  have usrs: "users ?d1 = users d"
    by (rule report_new_result(2) [OF u c vis rsn ex cap])
  have cms: "comments ?d1 = (comments d)(cid := Some ?c1)"
    by (rule report_new_below(1) [OF u c vis rsn ex cap below])
  have vis1: "isCommentVisible ?c1 = isCommentVisible c"
    by (simp add: isCommentVisible_def getCommentStatus_def)
  have act: "activeReport ?d1 r = activeReport d r" for r
    by (rule activeReport_patch [OF usrs cms c vis1]) simp
  have "existingReports ?d1 cid (u_id v) = existingReports d cid (u_id v)"
    using ne by (simp add: existingReports_def reps)
  moreover have "activeReportsOf ?d1 (u_id v) = activeReportsOf d (u_id v)"
    using ne act by (simp add: activeReportsOf_def reps)
  ultimately show ?thesis
    using v rsn2 ex2 cap2
    by (simp add: call newReporter_def countActiveReportsForUser_eq)
qed

lemma distinctNewReporters_tail:
  assumes u: "requireUser acc = Some usr" and c: "comments d cid = Some c"
    and vis: "isCommentVisible c" and rsn: "trim rsn \<noteq> []"
    and ex: "existingReports d cid (u_id usr) = []"
    and cap: "countActiveReportsForUser d (u_id usr) < 20"
    and below: "reportCountOf c + 1 \<le> 3"
    and new: "distinctNewReporters d cid ((acc, now, rsn) # xs)"
  shows "distinctNewReporters (snd (reportHandler acc now cid rsn d)) cid xs"
  unfolding distinctNewReporters_def list_all_iff
proof (intro conjI ballI)
  show "distinct (map reporterOf xs)"
    using new by (simp add: distinctNewReporters_def)
next
  fix call assume m: "call \<in> set xs"
  have rx: "reporterOf (acc, now, rsn) = Some (u_id usr)"
    using u by (simp add: reporterOf_def)
  have "reporterOf (acc, now, rsn) \<notin> set (map reporterOf xs)"
    using new by (simp add: distinctNewReporters_def)
  then have other: "reporterOf call \<noteq> Some (u_id usr)"
    using m rx by force
  from new m have "newReporter d cid call"
    by (simp add: distinctNewReporters_def list_all_iff)
  then show "newReporter (snd (reportHandler acc now cid rsn d)) cid call"
    by (rule newReporter_preserved [OF u c vis rsn ex cap below other])
qed

lemma distinctNewReporters_butlast:
  "distinctNewReporters d cid calls \<Longrightarrow> distinctNewReporters d cid (butlast calls)"
proof -
  assume a: "distinctNewReporters d cid calls"
  then have "distinct (butlast (map reporterOf calls))"
    by (simp add: distinctNewReporters_def distinct_butlast)
  then have "distinct (map reporterOf (butlast calls))"
    by (simp add: map_butlast)
  moreover from a have "list_all (newReporter d cid) (butlast calls)"
    by (auto simp: distinctNewReporters_def list_all_iff dest: in_set_butlastD)
  ultimately show ?thesis
    by (simp add: distinctNewReporters_def)
qed

lemma report_prefix_visible:
  assumes "comments d cid = Some c" "isCommentVisible c"
    "distinctNewReporters d cid calls"
    "reportCountOf c + int (length calls) \<le> 3"
  shows "fst (reportAll cid calls d) = replicate (length calls) (Inr (ReportResult True False))
    \<and> (\<exists>c'. comments (snd (reportAll cid calls d)) cid = Some c' \<and> isCommentVisible c'
           \<and> reportCountOf c' = reportCountOf c + int (length calls))
    \<and> statEvents (snd (reportAll cid calls d)) = statEvents d
    \<and> auditLogs (snd (reportAll cid calls d)) = auditLogs d"
  using assms
proof (induction calls arbitrary: d c)
  case Nil
  then show ?case by simp
next
  case (Cons x xs)
  obtain acc now rsn where x: "x = (acc, now, rsn)" by (cases x)
  from Cons.prems(3) x obtain usr where u: "requireUser acc = Some usr"
    and rsn: "trim rsn \<noteq> []" and ex: "existingReports d cid (u_id usr) = []"
    and cap: "countActiveReportsForUser d (u_id usr) < 20"
    by (auto simp: distinctNewReporters_def newReporter_def MAX_ACTIVE_REPORTS_PER_USER_def
        split: option.splits)
  note c = Cons.prems(1) and vis = Cons.prems(2)
  let ?d1 = "snd (reportHandler acc now cid rsn d)"
  let ?c1 = "c\<lparr>reportCount := Some (reportCountOf c + 1), lastReportedAt := Some now\<rparr>"
  from Cons.prems(4) have below: "reportCountOf c + 1 \<le> 3" by simp
  have ok: "fst (reportHandler acc now cid rsn d) = Inr (ReportResult True False)"
    by (rule report_new_result(1) [OF u c vis rsn ex cap])
  note b = report_new_below [OF u c vis rsn ex cap below, of now]
  have c1: "comments ?d1 cid = Some ?c1" using b(1) by simp
  have vis1: "isCommentVisible ?c1"
    using vis by (auto simp: isCommentVisible_def getCommentStatus_def split: option.splits)
  have rc1: "reportCountOf ?c1 = reportCountOf c + 1"
    by (simp add: reportCountOf_def)
  have new1: "distinctNewReporters ?d1 cid xs"
    using Cons.prems(3) unfolding x
    by (rule distinctNewReporters_tail [OF u c vis rsn ex cap below])
  have le: "reportCountOf ?c1 + int (length xs) \<le> 3"
    using Cons.prems(4) by (simp add: rc1)
  note ih = Cons.IH [OF c1 vis1 new1 le]
  from ih obtain c' where c':
    "comments (snd (reportAll cid xs ?d1)) cid = Some c'" "isCommentVisible c'"
    "reportCountOf c' = reportCountOf ?c1 + int (length xs)"
    by blast
  have cnt: "reportCountOf c' = reportCountOf c + int (length ((acc, now, rsn) # xs))"
    using c'(3) rc1 by simp
  have ex': "\<exists>c'. comments (snd (reportAll cid xs ?d1)) cid = Some c' \<and> isCommentVisible c'
           \<and> reportCountOf c' = reportCountOf c + int (length ((acc, now, rsn) # xs))"
    using c'(1,2) cnt by blast
  have res: "fst (reportAll cid ((acc, now, rsn) # xs) d)
      = replicate (length ((acc, now, rsn) # xs)) (Inr (ReportResult True False))"
    unfolding reportAll_Cons using ih ok by simp
  have st: "statEvents (snd (reportAll cid ((acc, now, rsn) # xs) d)) = statEvents d"
    unfolding reportAll_Cons using ih b(2) by simp
  have au: "auditLogs (snd (reportAll cid ((acc, now, rsn) # xs) d)) = auditLogs d"
    unfolding reportAll_Cons using ih b(3) by simp
  have sn: "snd (reportAll cid ((acc, now, rsn) # xs) d) = snd (reportAll cid xs ?d1)"
    unfolding reportAll_Cons by simp
  show ?case
    unfolding x using res ex' st au unfolding sn by - (intro conjI; assumption)
qed

lemma report_prefix_hides:
  assumes "comments d cid = Some c" "isCommentVisible c"
    "distinctNewReporters d cid calls" "calls \<noteq> []"
    "reportCountOf c + int (length calls) > 3"
    "length calls = 1 \<or> reportCountOf c + int (length calls) \<le> 4"
  shows "fst (reportAll cid calls d) = replicate (length calls) (Inr (ReportResult True False))
    \<and> (\<exists>c'. comments (snd (reportAll cid calls d)) cid = Some c'
           \<and> moderationStatus c' = Some Hidden
           \<and> moderationReason c' = Some ''auto.reports'')
    \<and> statEvents (snd (reportAll cid calls d))
         = statEvents d @ [\<lparr>se_skillId = skillId c, kind = StatUncomment\<rparr>]
    \<and> (\<exists>a. auditLogs (snd (reportAll cid calls d)) = auditLogs d @ [a]
           \<and> action a = ''comment.auto_hide'' \<and> targetId a = cid
           \<and> reporterOf (last calls) = Some (actorUserId a))"
  using assms
proof (induction calls arbitrary: d c)
  case Nil
  then show ?case by simp
next
  case (Cons x xs)
  obtain acc now rsn where x: "x = (acc, now, rsn)" by (cases x)
  from Cons.prems(3) x obtain usr where u: "requireUser acc = Some usr"
    and rsn: "trim rsn \<noteq> []" and ex: "existingReports d cid (u_id usr) = []"
    and cap: "countActiveReportsForUser d (u_id usr) < 20"
    by (auto simp: distinctNewReporters_def newReporter_def MAX_ACTIVE_REPORTS_PER_USER_def
        split: option.splits)
  note c = Cons.prems(1) and vis = Cons.prems(2)
  let ?d1 = "snd (reportHandler acc now cid rsn d)"
  have ok: "fst (reportHandler acc now cid rsn d) = Inr (ReportResult True False)"
    by (rule report_new_result(1) [OF u c vis rsn ex cap])
  show ?case
  proof (cases xs)
    case Nil
    with Cons.prems(5) have hide: "reportCountOf c + 1 > 3" by simp
    note h = report_new_hide [OF u c vis rsn ex cap hide, of now]
    show ?thesis
      unfolding x Nil reportAll_Cons
      using ok h u by (simp add: reporterOf_def)
  next
    case (Cons y ys)
    with Cons.prems(5,6) have below: "reportCountOf c + 1 \<le> 3" by simp
    let ?c1 = "c\<lparr>reportCount := Some (reportCountOf c + 1), lastReportedAt := Some now\<rparr>"
    note b = report_new_below [OF u c vis rsn ex cap below, of now]
    have c1: "comments ?d1 cid = Some ?c1" using b(1) by simp
    have vis1: "isCommentVisible ?c1"
      using vis by (auto simp: isCommentVisible_def getCommentStatus_def split: option.splits)
    have rc1: "reportCountOf ?c1 = reportCountOf c + 1"
      by (simp add: reportCountOf_def)
    have new1: "distinctNewReporters ?d1 cid xs"
      using Cons.prems(3) unfolding x
      by (rule distinctNewReporters_tail [OF u c vis rsn ex cap below])
    have ne: "xs \<noteq> []" using Cons by simp
    have gt: "reportCountOf ?c1 + int (length xs) > 3"
      using Cons.prems(5) by (simp add: rc1)
    have le: "length xs = 1 \<or> reportCountOf ?c1 + int (length xs) \<le> 4"
      using Cons.prems(6) Cons by (simp add: rc1)
    note ih = Cons.IH [OF c1 vis1 new1 ne gt le]
    show ?thesis
      unfolding x reportAll_Cons
      using ih ok b(2) b(3) ne by simp
  qed
qed

subsection \<open>Moderator requests\<close>

lemma remove_not_visible:
  "requireUser acc = Some usr \<Longrightarrow> comments d cid = Some c \<Longrightarrow> \<not> isCommentVisible c \<Longrightarrow>
     removeHandler acc now cid d = (Inr (), d)"
  by (simp add: removeHandler_def)

lemma setSoftDeleted_same_state:
  assumes "requireUser acc = Some usr" "assertModerator acc usr" "comments d cid = Some c"
    "isCommentVisible c = (\<not> del)"
  shows "fst (setSoftDeletedHandler acc now cid del d) = Inr ()"
    and "statEvents (snd (setSoftDeletedHandler acc now cid del d)) = statEvents d"
    and "commentReports (snd (setSoftDeletedHandler acc now cid del d)) = commentReports d"
    and "auditLogs (snd (setSoftDeletedHandler acc now cid del d)) =
           auditLogs d @
             [\<lparr>actorUserId = u_id usr,
               action = (if del then ''comment.hide'' else ''comment.restore''),
               targetType = ''comment'', targetId = cid, metadata_skillId = skillId c,
               metadata_reportCount = None, a_createdAt = now\<rparr>]"
    and "comments (snd (setSoftDeletedHandler acc now cid del d)) =
           (comments d)(cid := Some
             (if del
              then c\<lparr>softDeletedAt := Some now, deletedBy := Some (u_id usr),
                     moderationStatus := Some Hidden,
                     moderationReason := Some ''manual.moderation'',
                     moderationNotes := Some ''Hidden by moderator.'',
                     hiddenAt := Some now, lastReviewedAt := Some now\<rparr>
              else c\<lparr>softDeletedAt := None, deletedBy := None,
                     moderationStatus := Some Active, moderationReason := None,
                     moderationNotes := None, hiddenAt := None,
                     lastReviewedAt := Some now\<rparr>))"
  using assms
  by (simp_all add: setSoftDeletedHandler_def Let_def patchComment_def
      insertAuditLog_def insertStatEvent_def)

subsection \<open>Claim C1: auto-hide happens exactly once\<close>

text \<open>
  Claim C1. Let distinct reporters, none of whom has reported the visible comment before
  and each below the rate cap, report it one after the other, \<open>first\<close> being the requests
  up to and including the one that makes the stored report count exceed 3 (four requests
  when the count starts at 0). Every request of \<open>first\<close> is accepted; before the last of
  them the comment is still visible and no stat event or audit entry has been written;
  the last one leaves the comment hidden with reason \<open>auto.reports\<close> and appends exactly
  one \<open>uncomment\<close> stat event and one \<open>comment.auto_hide\<close> audit entry, whose actor is
  that reporter. Every later report request (\<open>later\<close>, by any authenticated callers)
  fails with the already-hidden error and leaves the store as it was.
\<close>

theorem report_auto_hide_once:
  assumes "comments d cid = Some c" and "isCommentVisible c"
    and "distinctNewReporters d cid first" and "first \<noteq> []"
    and "reportCountOf c + int (length first) > 3"
    and "length first = 1 \<or> reportCountOf c + int (length first) \<le> 4"
    and "list_all authenticated later"
  shows "fst (reportAll cid (first @ later) d)
           = replicate (length first) (Inr (ReportResult True False))
             @ replicate (length later) (Inl CommentAlreadyHidden)
    \<and> snd (reportAll cid (first @ later) d) = snd (reportAll cid first d)
    \<and> (\<exists>c'. comments (snd (reportAll cid (butlast first) d)) cid = Some c'
           \<and> isCommentVisible c')
    \<and> statEvents (snd (reportAll cid (butlast first) d)) = statEvents d
    \<and> auditLogs (snd (reportAll cid (butlast first) d)) = auditLogs d
    \<and> (\<exists>c'. comments (snd (reportAll cid first d)) cid = Some c'
           \<and> moderationStatus c' = Some Hidden
           \<and> moderationReason c' = Some ''auto.reports'')
    \<and> statEvents (snd (reportAll cid first d))
         = statEvents d @ [\<lparr>se_skillId = skillId c, kind = StatUncomment\<rparr>]
    \<and> (\<exists>a. auditLogs (snd (reportAll cid first d)) = auditLogs d @ [a]
           \<and> action a = ''comment.auto_hide'' \<and> targetId a = cid
           \<and> reporterOf (last first) = Some (actorUserId a))"
proof -
  note h = report_prefix_hides [OF assms(1-6)]
  from h obtain c' where c': "comments (snd (reportAll cid first d)) cid = Some c'"
    "moderationStatus c' = Some Hidden" by blast
  note l = reportAll_hidden [OF c' assms(7)]
  have v: "(\<exists>c'. comments (snd (reportAll cid (butlast first) d)) cid = Some c'
           \<and> isCommentVisible c')
    \<and> statEvents (snd (reportAll cid (butlast first) d)) = statEvents d
    \<and> auditLogs (snd (reportAll cid (butlast first) d)) = auditLogs d"
  proof (cases "length first = 1")
    case True
    then have "butlast first = []"
      by (cases first) simp_all
    with assms(1,2) show ?thesis by simp
  next
    case False
    with assms(4,6) have bl: "reportCountOf c + int (length (butlast first)) \<le> 3"
      by (cases first) auto
    from report_prefix_visible
      [OF assms(1,2) distinctNewReporters_butlast [OF assms(3)] bl]
    show ?thesis by blast
  qed
  have a: "fst (reportAll cid (first @ later) d)
           = replicate (length first) (Inr (ReportResult True False))
             @ replicate (length later) (Inl CommentAlreadyHidden)"
    using h l by (simp add: reportAll_append)
  have b: "snd (reportAll cid (first @ later) d) = snd (reportAll cid first d)"
    using l by (simp add: reportAll_append)
  from a b h v show ?thesis
    by (elim conjE) (intro conjI; assumption)
qed

theorem report_auto_hide_once_witness:
  "fst (reportAll 1 (exFirst @ exLater) (exDb (exComment None) []))
     = [Inr (ReportResult True False), Inr (ReportResult True False),
        Inr (ReportResult True False), Inr (ReportResult True False),
        Inl CommentAlreadyHidden, Inl CommentAlreadyHidden]
   \<and> statEvents (snd (reportAll 1 (exFirst @ exLater) (exDb (exComment None) [])))
     = [\<lparr>se_skillId = 4, kind = StatUncomment\<rparr>]
   \<and> (\<exists>a. auditLogs (snd (reportAll 1 (exFirst @ exLater) (exDb (exComment None) []))) = [a]
          \<and> action a = ''comment.auto_hide'' \<and> actorUserId a = 14)
   \<and> statEvents (snd (reportAll 1 (butlast exFirst) (exDb (exComment None) []))) = []"
proof -
  let ?d = "exDb (exComment None) []"
  have c: "comments ?d 1 = Some (exComment None)" by (simp add: exDb_def)
  have k: "countActiveReportsForUser ?d i = 0" for i
    by (simp add: countActiveReportsForUser_def exDb_def)
  have e: "existingReports ?d j i = []" for i j
    by (simp add: existingReports_def exDb_def)
  have t: "trim (js ''spam'') \<noteq> []" "trim (js ''abuse'') \<noteq> []" "trim (js ''malware'') \<noteq> []"
    by (simp_all add: trim_def isSpace_def js_def)
  have n: "distinctNewReporters ?d 1 exFirst"
    using t
    by (simp add: distinctNewReporters_def newReporter_def reporterOf_def exFirst_def
        exReporter_def exAccess_def exUser_def k e MAX_ACTIVE_REPORTS_PER_USER_def)
  have ne: "exFirst \<noteq> []" by (simp add: exFirst_def)
  have len: "length exFirst = 4" "length exLater = 2" by (simp_all add: exFirst_def exLater_def)
  have gt: "reportCountOf (exComment None) + int (length exFirst) > 3"
    by (simp add: reportCountOf_def ex_fields len)
  have le: "length exFirst = 1 \<or> reportCountOf (exComment None) + int (length exFirst) \<le> 4"
    by (simp add: reportCountOf_def ex_fields len)
  have a: "list_all authenticated exLater"
    by (simp add: authenticated_def exLater_def exReporter_def exAccess_def)
  have l: "reporterOf (last exFirst) = Some 14"
    by (simp add: exFirst_def reporterOf_def exReporter_def exAccess_def exUser_def)
  note th = report_auto_hide_once [OF c ex_visible n ne gt le a]
  have sk: "skillId (exComment None) = 4" by (rule ex_fields(2))
  have s0: "statEvents ?d = []" "auditLogs ?d = []" by (simp_all add: exDb_def)
  have r: "replicate (length exFirst) (Inr (ReportResult True False))
             @ replicate (length exLater) (Inl CommentAlreadyHidden)
     = [Inr (ReportResult True False), Inr (ReportResult True False),
        Inr (ReportResult True False), Inr (ReportResult True False),
        Inl CommentAlreadyHidden, Inl CommentAlreadyHidden :: error + reportResult]"
    by (simp add: len numeral_eq_Suc)
  from th have 1: "fst (reportAll 1 (exFirst @ exLater) ?d)
     = replicate (length exFirst) (Inr (ReportResult True False))
             @ replicate (length exLater) (Inl CommentAlreadyHidden)"
    and 2: "snd (reportAll 1 (exFirst @ exLater) ?d) = snd (reportAll 1 exFirst ?d)"
    and 3: "statEvents (snd (reportAll 1 (butlast exFirst) ?d)) = statEvents ?d"
    and 4: "statEvents (snd (reportAll 1 exFirst ?d))
         = statEvents ?d @ [\<lparr>se_skillId = skillId (exComment None), kind = StatUncomment\<rparr>]"
    and 5: "\<exists>a. auditLogs (snd (reportAll 1 exFirst ?d)) = auditLogs ?d @ [a]
           \<and> action a = ''comment.auto_hide'' \<and> targetId a = 1
           \<and> reporterOf (last exFirst) = Some (actorUserId a)"
    by blast+
  from 5 l s0 have 6: "\<exists>a. auditLogs (snd (reportAll 1 exFirst ?d)) = [a]
          \<and> action a = ''comment.auto_hide'' \<and> actorUserId a = 14"
    by auto
  show ?thesis
    unfolding 2 using 1 r 3 4 6 sk s0 by simp
qed

subsection \<open>Claim C2: repeated reports\<close>

text \<open>
  Claim C2, as amended. Once the reporter has a report row for the comment, a further
  report request by that reporter for that comment never writes anything, however often
  it is repeated. What it returns follows the handler's checks in their order: the
  not-found error when the comment is missing or removed, the already-hidden error when
  it is no longer visible, the validation error when the reason is empty after trimming,
  and otherwise \<^verbatim>\<open>{reported: false, alreadyReported: true}\<close>, the pair having the single row
  that the uniqueness invariant of the data model allows (on more than one row the
  store's \<^verbatim>\<open>unique()\<close> throws).
\<close>

theorem repeat_report:
  "requireUser acc = Some usr \<Longrightarrow> existingReports d cid (u_id usr) \<noteq> [] \<Longrightarrow>
     snd (reportHandler acc now cid rsn d) = d
     \<and> (comments d cid = None \<longrightarrow>
           fst (reportHandler acc now cid rsn d) = Inl CommentNotFound)
     \<and> (\<forall>c. comments d cid = Some c \<and> getCommentStatus c = Removed \<longrightarrow>
           fst (reportHandler acc now cid rsn d) = Inl CommentNotFound)
     \<and> (\<forall>c. comments d cid = Some c \<and> getCommentStatus c \<noteq> Removed \<and> \<not> isCommentVisible c \<longrightarrow>
           fst (reportHandler acc now cid rsn d) = Inl CommentAlreadyHidden)
     \<and> (\<forall>c. comments d cid = Some c \<and> isCommentVisible c \<and> trim rsn = [] \<longrightarrow>
           fst (reportHandler acc now cid rsn d) = Inl ReportReasonRequired)
     \<and> (\<forall>c. comments d cid = Some c \<and> isCommentVisible c \<and> trim rsn \<noteq> []
             \<and> length (existingReports d cid (u_id usr)) = 1 \<longrightarrow>
           fst (reportHandler acc now cid rsn d) = Inr (ReportResult False True))
     \<and> (\<forall>c. comments d cid = Some c \<and> isCommentVisible c \<and> trim rsn \<noteq> []
             \<and> length (existingReports d cid (u_id usr)) > 1 \<longrightarrow>
           fst (reportHandler acc now cid rsn d) = Inl NotUnique)"
proof -
  assume u: "requireUser acc = Some usr" and e: "existingReports d cid (u_id usr) \<noteq> []"
  have one: "reportHandler acc now cid rsn d = (Inr (ReportResult False True), d)"
    if "comments d cid = Some c" "isCommentVisible c" "trim rsn \<noteq> []"
      "length (existingReports d cid (u_id usr)) = 1" for c
  proof -
    from that(4) obtain r where "existingReports d cid (u_id usr) = [r]"
      by (cases "existingReports d cid (u_id usr)") auto
    then show ?thesis
      by (rule report_existing_already [OF u _ that(1,2,3)])
  qed
  note g = report_guards [OF u]
  show ?thesis
  proof (intro conjI allI impI)
    show "snd (reportHandler acc now cid rsn d) = d"
      by (rule report_existing_no_write(1) [OF u e])
    show "fst (reportHandler acc now cid rsn d) = Inl CommentNotFound"
      if "comments d cid = None"
      using that by (simp add: g(1))
    show "fst (reportHandler acc now cid rsn d) = Inl CommentNotFound"
      if "comments d cid = Some c \<and> getCommentStatus c = Removed" for c
      using that by (simp add: g(2))
    show "fst (reportHandler acc now cid rsn d) = Inl CommentAlreadyHidden"
      if "comments d cid = Some c \<and> getCommentStatus c \<noteq> Removed \<and> \<not> isCommentVisible c" for c
      using that by (simp add: g(3))
    show "fst (reportHandler acc now cid rsn d) = Inl ReportReasonRequired"
      if "comments d cid = Some c \<and> isCommentVisible c \<and> trim rsn = []" for c
      using that by (simp add: g(4))
    show "fst (reportHandler acc now cid rsn d) = Inr (ReportResult False True)"
      if "comments d cid = Some c \<and> isCommentVisible c \<and> trim rsn \<noteq> []
             \<and> length (existingReports d cid (u_id usr)) = 1" for c
      using that one [of c] by simp
    show "fst (reportHandler acc now cid rsn d) = Inl NotUnique"
      if "comments d cid = Some c \<and> isCommentVisible c \<and> trim rsn \<noteq> []
             \<and> length (existingReports d cid (u_id usr)) > 1" for c
      using that report_existing_many [OF u, of d cid c rsn now] by simp
  qed
qed

theorem repeat_report_witness:
  "fst (reportHandler (exReporter 9) 60 1 (js ''spam'') (exDb (exComment None) []))
      = Inr (ReportResult True False)
   \<and> existingReports
        (snd (reportHandler (exReporter 9) 60 1 (js ''spam'') (exDb (exComment None) []))) 1 9
      = [\<lparr>r_id = 50, r_commentId = 1, r_skillId = 4, r_userId = 9, r_reason = js ''spam'',
          r_createdAt = 60\<rparr>]
   \<and> reportHandler (exReporter 9) 61 1 (js '' spam '')
        (snd (reportHandler (exReporter 9) 60 1 (js ''spam'') (exDb (exComment None) [])))
      = (Inr (ReportResult False True),
         snd (reportHandler (exReporter 9) 60 1 (js ''spam'') (exDb (exComment None) [])))
   \<and> reportHandler (exReporter 9) 62 1 exBlank
        (snd (reportHandler (exReporter 9) 60 1 (js ''spam'') (exDb (exComment None) [])))
      = (Inl ReportReasonRequired,
         snd (reportHandler (exReporter 9) 60 1 (js ''spam'') (exDb (exComment None) [])))"
proof -
  let ?d0 = "exDb (exComment None) []"
  let ?d1 = "snd (reportHandler (exReporter 9) 60 1 (js ''spam'') ?d0)"
  let ?c1 = "(exComment None)\<lparr>reportCount := Some 1, lastReportedAt := Some 60\<rparr>"
  have u: "requireUser (exReporter 9) = Some (exUser 9 RoleUser)"
    by (simp add: exReporter_def exAccess_def)
  have id: "u_id (exUser 9 RoleUser) = 9" by (simp add: exUser_def)
  have c0: "comments ?d0 1 = Some (exComment None)" by (simp add: exDb_def)
  have e0: "existingReports ?d0 1 (u_id (exUser 9 RoleUser)) = []"
    by (simp add: existingReports_def exDb_def)
  have k0: "countActiveReportsForUser ?d0 (u_id (exUser 9 RoleUser)) < 20"
    by (simp add: countActiveReportsForUser_def exDb_def)
  have b0: "reportCountOf (exComment None) + 1 \<le> 3"
    by (simp add: reportCountOf_def ex_fields)
  note t = ex_trim(3)
  have t0: "trim (js ''spam'') \<noteq> []" using t by (simp add: js_def)
  note r = report_new_result [OF u c0 ex_visible t0 e0 k0, of 60]
  note b = report_new_below [OF u c0 ex_visible t0 e0 k0 b0, of 60]
  have e1: "existingReports ?d1 1 9 =
      [\<lparr>r_id = 50, r_commentId = 1, r_skillId = 4, r_userId = 9, r_reason = js ''spam'',
        r_createdAt = 60\<rparr>]"
  proof -
    have "commentReports ?d1 =
      [\<lparr>r_id = 50, r_commentId = 1, r_skillId = 4, r_userId = 9, r_reason = js ''spam'',
        r_createdAt = 60\<rparr>]"
      using r(3) by (simp add: exDb_def id t ex_fields) (simp add: js_def)
    then show ?thesis by (simp add: existingReports_def)
  qed
  have c1: "comments ?d1 1 = Some ?c1"
    using b(1) by (simp add: reportCountOf_def ex_fields)
  have v1: "isCommentVisible ?c1"
    using ex_visible [of None]
    by (auto simp: isCommentVisible_def getCommentStatus_def split: option.splits)
  have ne: "existingReports ?d1 1 (u_id (exUser 9 RoleUser)) \<noteq> []"
    using e1 by (simp add: id)
  have l1: "length (existingReports ?d1 1 (u_id (exUser 9 RoleUser))) = 1"
    using e1 by (simp add: id)
  have t1: "trim (js '' spam '') \<noteq> []" using ex_trim(2) by (simp add: js_def)
  from repeat_report [OF u ne, of 61 "js '' spam ''"] c1 v1 t1 l1
  have "snd (reportHandler (exReporter 9) 61 1 (js '' spam '') ?d1) = ?d1
      \<and> fst (reportHandler (exReporter 9) 61 1 (js '' spam '') ?d1)
          = Inr (ReportResult False True)"
    by simp
  then have 1: "reportHandler (exReporter 9) 61 1 (js '' spam '') ?d1
      = (Inr (ReportResult False True), ?d1)"
    by (simp add: prod_eq_iff)
  from repeat_report [OF u ne, of 62 exBlank] c1 v1 ex_blank
  have "snd (reportHandler (exReporter 9) 62 1 exBlank ?d1) = ?d1
      \<and> fst (reportHandler (exReporter 9) 62 1 exBlank ?d1) = Inl ReportReasonRequired"
    by simp
  then have 2: "reportHandler (exReporter 9) 62 1 exBlank ?d1 = (Inl ReportReasonRequired, ?d1)"
    by (simp add: prod_eq_iff)
  from r(1) e1 1 2 show ?thesis by simp
qed

theorem repeat_report_counterexample:
  "fst (reportHandler (exReporter 9) 60 1 (js ''spam'') (exDb (exComment (Some 3)) []))
      = Inr (ReportResult True False)
   \<and> existingReports
        (snd (reportHandler (exReporter 9) 60 1 (js ''spam'') (exDb (exComment (Some 3)) []))) 1 9
      = [\<lparr>r_id = 50, r_commentId = 1, r_skillId = 4, r_userId = 9, r_reason = js ''spam'',
          r_createdAt = 60\<rparr>]
   \<and> fst (reportHandler (exReporter 9) 61 1 (js ''spam'')
        (snd (reportHandler (exReporter 9) 60 1 (js ''spam'') (exDb (exComment (Some 3)) []))))
      = Inl CommentAlreadyHidden"
proof -
  let ?d0 = "exDb (exComment (Some 3)) []"
  let ?d1 = "snd (reportHandler (exReporter 9) 60 1 (js ''spam'') ?d0)"
  have u: "requireUser (exReporter 9) = Some (exUser 9 RoleUser)"
    by (simp add: exReporter_def exAccess_def)
  have id: "u_id (exUser 9 RoleUser) = 9" by (simp add: exUser_def)
  have c0: "comments ?d0 1 = Some (exComment (Some 3))" by (simp add: exDb_def)
  have e0: "existingReports ?d0 1 (u_id (exUser 9 RoleUser)) = []"
    by (simp add: existingReports_def exDb_def)
  have k0: "countActiveReportsForUser ?d0 (u_id (exUser 9 RoleUser)) < 20"
    by (simp add: countActiveReportsForUser_def exDb_def)
  have h0: "reportCountOf (exComment (Some 3)) + 1 > 3"
    by (simp add: reportCountOf_def ex_fields)
  note t = ex_trim(3)
  have t0: "trim (js ''spam'') \<noteq> []" using t by (simp add: js_def)
  note r = report_new_result [OF u c0 ex_visible t0 e0 k0, of 60]
  note h = report_new_hide [OF u c0 ex_visible t0 e0 k0 h0, of 60]
  have e1: "existingReports ?d1 1 9 =
      [\<lparr>r_id = 50, r_commentId = 1, r_skillId = 4, r_userId = 9, r_reason = js ''spam'',
        r_createdAt = 60\<rparr>]"
  proof -
    have "commentReports ?d1 =
      [\<lparr>r_id = 50, r_commentId = 1, r_skillId = 4, r_userId = 9, r_reason = js ''spam'',
        r_createdAt = 60\<rparr>]"
      using r(3) by (simp add: exDb_def id t ex_fields) (simp add: js_def)
    then show ?thesis by (simp add: existingReports_def)
  qed
  have "\<exists>c1. comments ?d1 1 = Some c1 \<and> moderationStatus c1 = Some Hidden"
    using h(1) by simp
  then obtain c1 where c1: "comments ?d1 1 = Some c1" "moderationStatus c1 = Some Hidden"
    by blast
  have "reportHandler (exReporter 9) 61 1 (js ''spam'') ?d1 = (Inl CommentAlreadyHidden, ?d1)"
    by (rule report_hidden [OF u c1])
  with r(1) e1 show ?thesis by simp
qed

subsection \<open>Claim C5: requests on a comment already in the requested state\<close>

text \<open>
  Claim C5, as amended. Removing a comment that is not visible (already removed or hidden)
  writes nothing and emits no stat event and no audit entry. A moderator's restore of a
  visible comment, or hide of a comment that is not visible, emits no stat event and
  leaves the reports alone, but it does rewrite the comment's moderation fields (stamping
  \<open>lastReviewedAt\<close>) and appends exactly one audit entry.
\<close>

theorem noop_moderation:
  "(\<forall>usr c. requireUser acc = Some usr \<and> comments d cid = Some c \<and> \<not> isCommentVisible c \<longrightarrow>
       removeHandler acc now cid d = (Inr (), d))
   \<and> (\<forall>usr c. requireUser acc = Some usr \<and> assertModerator acc usr \<and> comments d cid = Some c
         \<and> isCommentVisible c = (\<not> del) \<longrightarrow>
         fst (setSoftDeletedHandler acc now cid del d) = Inr ()
         \<and> statEvents (snd (setSoftDeletedHandler acc now cid del d)) = statEvents d
         \<and> commentReports (snd (setSoftDeletedHandler acc now cid del d)) = commentReports d
         \<and> auditLogs (snd (setSoftDeletedHandler acc now cid del d)) =
             auditLogs d @
               [\<lparr>actorUserId = u_id usr,
                 action = (if del then ''comment.hide'' else ''comment.restore''),
                 targetType = ''comment'', targetId = cid, metadata_skillId = skillId c,
                 metadata_reportCount = None, a_createdAt = now\<rparr>]
         \<and> comments (snd (setSoftDeletedHandler acc now cid del d)) =
             (comments d)(cid := Some
               (if del
                then c\<lparr>softDeletedAt := Some now, deletedBy := Some (u_id usr),
                       moderationStatus := Some Hidden,
                       moderationReason := Some ''manual.moderation'',
                       moderationNotes := Some ''Hidden by moderator.'',
                       hiddenAt := Some now, lastReviewedAt := Some now\<rparr>
                else c\<lparr>softDeletedAt := None, deletedBy := None,
                       moderationStatus := Some Active, moderationReason := None,
                       moderationNotes := None, hiddenAt := None,
                       lastReviewedAt := Some now\<rparr>)))"
proof (intro conjI allI impI)
  fix usr c
  assume "requireUser acc = Some usr \<and> comments d cid = Some c \<and> \<not> isCommentVisible c"
  then show "removeHandler acc now cid d = (Inr (), d)"
    by (simp add: remove_not_visible)
next
  fix usr c
  assume a: "requireUser acc = Some usr \<and> assertModerator acc usr \<and> comments d cid = Some c
         \<and> isCommentVisible c = (\<not> del)"
  then have 1: "requireUser acc = Some usr" and 2: "assertModerator acc usr"
    and 3: "comments d cid = Some c" and 4: "isCommentVisible c = (\<not> del)"
    by simp_all
  note s = setSoftDeleted_same_state [OF 1 2 3 4, of now]
  show "fst (setSoftDeletedHandler acc now cid del d) = Inr ()" by (rule s(1))
  show "statEvents (snd (setSoftDeletedHandler acc now cid del d)) = statEvents d" by (rule s(2))
  show "commentReports (snd (setSoftDeletedHandler acc now cid del d)) = commentReports d"
    by (rule s(3))
  show "auditLogs (snd (setSoftDeletedHandler acc now cid del d)) =
             auditLogs d @
               [\<lparr>actorUserId = u_id usr,
                 action = (if del then ''comment.hide'' else ''comment.restore''),
                 targetType = ''comment'', targetId = cid, metadata_skillId = skillId c,
                 metadata_reportCount = None, a_createdAt = now\<rparr>]" by (rule s(4))
  show "comments (snd (setSoftDeletedHandler acc now cid del d)) =
             (comments d)(cid := Some
               (if del
                then c\<lparr>softDeletedAt := Some now, deletedBy := Some (u_id usr),
                       moderationStatus := Some Hidden,
                       moderationReason := Some ''manual.moderation'',
                       moderationNotes := Some ''Hidden by moderator.'',
                       hiddenAt := Some now, lastReviewedAt := Some now\<rparr>
                else c\<lparr>softDeletedAt := None, deletedBy := None,
                       moderationStatus := Some Active, moderationReason := None,
                       moderationNotes := None, hiddenAt := None,
                       lastReviewedAt := Some now\<rparr>))" by (rule s(5))
qed

theorem noop_moderation_witness:
  "removeHandler (exReporter 7) 60 1 (exDb exRemoved []) = (Inr (), exDb exRemoved [])
   \<and> statEvents (snd (setSoftDeletedHandler (exAccess (exUser 2 RoleModerator)) 60 1 False
                         (exDb (exComment None) []))) = []
   \<and> length (auditLogs (snd (setSoftDeletedHandler (exAccess (exUser 2 RoleModerator)) 60 1 True
                         (exDb exHidden [])))) = 1"
proof -
  let ?m = "exAccess (exUser 2 RoleModerator)"
  have r: "requireUser (exReporter 7) = Some (exUser 7 RoleUser)
      \<and> comments (exDb exRemoved []) 1 = Some exRemoved \<and> \<not> isCommentVisible exRemoved"
    using ex_removed(1) by (simp add: exReporter_def exAccess_def exDb_def)
  have m: "requireUser ?m = Some (exUser 2 RoleModerator)
      \<and> assertModerator ?m (exUser 2 RoleModerator)"
    by (simp add: exAccess_def exUser_def)
  have a: "comments (exDb (exComment None) []) 1 = Some (exComment None)
      \<and> isCommentVisible (exComment None) = (\<not> False)"
    using ex_visible [of None] by (simp add: exDb_def)
  have h: "comments (exDb exHidden []) 1 = Some exHidden
      \<and> isCommentVisible exHidden = (\<not> True)"
    using ex_hidden(1) by (simp add: exDb_def)
  have 1: "removeHandler (exReporter 7) 60 1 (exDb exRemoved []) = (Inr (), exDb exRemoved [])"
    using noop_moderation [of "exReporter 7" "exDb exRemoved []" 1 60] r by blast
  have 2: "statEvents (snd (setSoftDeletedHandler ?m 60 1 False (exDb (exComment None) [])))
       = statEvents (exDb (exComment None) [])"
    using noop_moderation [of ?m "exDb (exComment None) []" 1 60 False] m a by blast
  have 3: "auditLogs (snd (setSoftDeletedHandler ?m 60 1 True (exDb exHidden []))) =
       auditLogs (exDb exHidden []) @
         [\<lparr>actorUserId = u_id (exUser 2 RoleModerator),
           action = (if True then ''comment.hide'' else ''comment.restore''),
           targetType = ''comment'', targetId = 1, metadata_skillId = skillId exHidden,
           metadata_reportCount = None, a_createdAt = 60\<rparr>]"
    using noop_moderation [of ?m "exDb exHidden []" 1 60 True] m h by blast
  from 1 2 3 show ?thesis by (simp add: exDb_def)
qed

theorem noop_moderation_counterexample:
  "isCommentVisible (exComment None)
   \<and> comments (exDb (exComment None) []) 1 = Some (exComment None)
   \<and> auditLogs (exDb (exComment None) []) = []
   \<and> auditLogs (snd (setSoftDeletedHandler (exAccess (exUser 2 RoleModerator)) 60 1 False
                       (exDb (exComment None) [])))
       = [\<lparr>actorUserId = 2, action = ''comment.restore'', targetType = ''comment'',
            targetId = 1, metadata_skillId = 4, metadata_reportCount = None,
            a_createdAt = 60\<rparr>]
   \<and> comments (snd (setSoftDeletedHandler (exAccess (exUser 2 RoleModerator)) 60 1 False
                       (exDb (exComment None) []))) 1
       = Some ((exComment None)\<lparr>lastReviewedAt := Some 60\<rparr>)
   \<and> \<not> isCommentVisible exHidden
   \<and> comments (exDb exHidden []) 1 = Some exHidden
   \<and> length (auditLogs (snd (setSoftDeletedHandler (exAccess (exUser 2 RoleModerator)) 61 1 True
                       (exDb exHidden [])))) = 1"
  using ex_visible [of None] ex_hidden(1)
  by (simp add: setSoftDeletedHandler_def exAccess_def exUser_def exDb_def Let_def
      patchComment_def insertAuditLog_def insertStatEvent_def exComment_def)

subsection \<open>Claim C6: a report with an empty reason\<close>

text \<open>
  Claim C6, as amended. A report whose reason trims to the empty string always fails and
  writes nothing. The target comment is read first: when it is missing or removed the
  failure is the not-found error, when it exists but is not visible the already-hidden
  error, and when it exists and is visible the validation error, whatever the report rows
  and the reporter's active count are (neither is consulted).
\<close>

theorem report_empty_reason:
  "requireUser acc = Some usr \<Longrightarrow> trim rsn = [] \<Longrightarrow>
     snd (reportHandler acc now cid rsn d) = d
     \<and> (comments d cid = None \<longrightarrow>
           fst (reportHandler acc now cid rsn d) = Inl CommentNotFound)
     \<and> (\<forall>c. comments d cid = Some c \<and> getCommentStatus c = Removed \<longrightarrow>
           fst (reportHandler acc now cid rsn d) = Inl CommentNotFound)
     \<and> (\<forall>c. comments d cid = Some c \<and> getCommentStatus c \<noteq> Removed \<and> \<not> isCommentVisible c \<longrightarrow>
           fst (reportHandler acc now cid rsn d) = Inl CommentAlreadyHidden)
     \<and> (\<forall>c. comments d cid = Some c \<and> isCommentVisible c \<longrightarrow>
           fst (reportHandler acc now cid rsn d) = Inl ReportReasonRequired)"
proof -
  assume u: "requireUser acc = Some usr" and t: "trim rsn = []"
  note g = report_guards [OF u]
  show ?thesis
  proof (intro conjI allI impI)
    show "fst (reportHandler acc now cid rsn d) = Inl CommentNotFound"
      if "comments d cid = None"
      using that by (simp add: g(1))
    show "fst (reportHandler acc now cid rsn d) = Inl CommentNotFound"
      if "comments d cid = Some c \<and> getCommentStatus c = Removed" for c
      using that by (simp add: g(2))
    show "fst (reportHandler acc now cid rsn d) = Inl CommentAlreadyHidden"
      if "comments d cid = Some c \<and> getCommentStatus c \<noteq> Removed \<and> \<not> isCommentVisible c" for c
      using that by (simp add: g(3))
    show "fst (reportHandler acc now cid rsn d) = Inl ReportReasonRequired"
      if "comments d cid = Some c \<and> isCommentVisible c" for c
      using that t by (simp add: g(4))
    show "snd (reportHandler acc now cid rsn d) = d"
    proof (cases "comments d cid")
      case None
      then show ?thesis by (simp add: g(1))
    next
      case (Some c)
      show ?thesis
      proof (cases "getCommentStatus c = Removed")
        case True
        with Some show ?thesis by (simp add: g(2))
      next
        case False
        with Some t show ?thesis
          by (cases "isCommentVisible c") (simp_all add: g(3) g(4))
      qed
    qed
  qed
qed

theorem report_empty_reason_witness:
  "trim exBlank = []
   \<and> length (activeReportsOf (exCapDb (exComment None) [exReport 20 1 9]) 9) = 21
   \<and> reportHandler (exReporter 9) 60 1 exBlank (exCapDb (exComment None) [exReport 20 1 9])
       = (Inl ReportReasonRequired, exCapDb (exComment None) [exReport 20 1 9])
   \<and> reportHandler (exReporter 9) 60 1 (js ''   '') (exDb exRemoved [])
       = (Inl CommentNotFound, exDb exRemoved [])"
proof -
  let ?d = "exCapDb (exComment None) [exReport 20 1 9]"
  have u: "requireUser (exReporter 9) = Some (exUser 9 RoleUser)"
    by (simp add: exReporter_def exAccess_def)
  have c: "comments ?d 1 = Some (exComment None)"
    by (simp add: exCapDb_def)
  have r: "comments (exDb exRemoved []) 1 = Some exRemoved"
    by (simp add: exDb_def)
  from report_empty_reason [OF u ex_blank, of 60 1 ?d] c ex_visible [of None]
  have 1: "reportHandler (exReporter 9) 60 1 exBlank ?d = (Inl ReportReasonRequired, ?d)"
    by (simp add: prod_eq_iff)
  from report_empty_reason [OF u ex_trim(1), of 60 1 "exDb exRemoved []"] r ex_removed(2)
  have 2: "reportHandler (exReporter 9) 60 1 (js ''   '') (exDb exRemoved [])
       = (Inl CommentNotFound, exDb exRemoved [])"
    by (simp add: prod_eq_iff)
  from 1 2 ex_blank ex_cap_active(3) show ?thesis by simp
qed

theorem report_empty_reason_counterexample:
  "trim (js ''   '') = []
   \<and> reportHandler (exReporter 9) 60 2 (js ''   '') (exDb (exComment None) [])
       = (Inl CommentNotFound, exDb (exComment None) [])
   \<and> reportHandler (exReporter 9) 60 1 (js ''   '') (exDb exRemoved [])
       = (Inl CommentNotFound, exDb exRemoved [])
   \<and> reportHandler (exReporter 9) 60 1 (js ''   '') (exDb exHidden [])
       = (Inl CommentAlreadyHidden, exDb exHidden [])"
  using ex_hidden ex_removed ex_trim(1)
  by (simp add: reportHandler_def exReporter_def exAccess_def exDb_def)

subsection \<open>Claim C7: the rate cap\<close>




subsection \<open>Claim C9: the duplicate lookup comes before the rate cap\<close>

text \<open>
  Claim C9, as amended. For a reporter who already has a report row for the target
  comment, a report request on a target that is still visible, with a reason that is not
  empty after trimming, returns the already-reported result whatever the reporter's
  active-report count is, also at or above the cap of 20 (the example that follows the
  theorem is at the cap), the pair having the single row that the uniqueness invariant of
  the data model allows (on more than one row the store's \<^verbatim>\<open>unique()\<close> throws): the
  duplicate lookup comes before the rate-cap check, so a repeated report never raises the
  rate-limit error, and it never writes. The checks on
  the target and the reason come before the lookup: a missing or removed target gives the
  not-found error, a target that is no longer visible the already-hidden error and an
  empty reason the validation error.
\<close>

theorem duplicate_before_cap:
  "requireUser acc = Some usr \<Longrightarrow> existingReports d cid (u_id usr) \<noteq> [] \<Longrightarrow>
     fst (reportHandler acc now cid rsn d) \<noteq> Inl ReportLimitReached
     \<and> snd (reportHandler acc now cid rsn d) = d
     \<and> (\<forall>c. comments d cid = Some c \<and> isCommentVisible c \<and> trim rsn \<noteq> []
             \<and> length (existingReports d cid (u_id usr)) = 1 \<longrightarrow>
           fst (reportHandler acc now cid rsn d) = Inr (ReportResult False True))
     \<and> (\<forall>c. comments d cid = Some c \<and> isCommentVisible c \<and> trim rsn \<noteq> []
             \<and> length (existingReports d cid (u_id usr)) > 1 \<longrightarrow>
           fst (reportHandler acc now cid rsn d) = Inl NotUnique)
     \<and> (comments d cid = None \<longrightarrow>
           fst (reportHandler acc now cid rsn d) = Inl CommentNotFound)
     \<and> (\<forall>c. comments d cid = Some c \<and> getCommentStatus c = Removed \<longrightarrow>
           fst (reportHandler acc now cid rsn d) = Inl CommentNotFound)
     \<and> (\<forall>c. comments d cid = Some c \<and> getCommentStatus c \<noteq> Removed \<and> \<not> isCommentVisible c \<longrightarrow>
           fst (reportHandler acc now cid rsn d) = Inl CommentAlreadyHidden)
     \<and> (\<forall>c. comments d cid = Some c \<and> isCommentVisible c \<and> trim rsn = [] \<longrightarrow>
           fst (reportHandler acc now cid rsn d) = Inl ReportReasonRequired)"
proof -
  assume u: "requireUser acc = Some usr" and ne: "existingReports d cid (u_id usr) \<noteq> []"
  have one: "reportHandler acc now cid rsn d = (Inr (ReportResult False True), d)"
    if "comments d cid = Some c" "isCommentVisible c" "trim rsn \<noteq> []"
      "length (existingReports d cid (u_id usr)) = 1" for c
  proof -
    from that(4) obtain r where "existingReports d cid (u_id usr) = [r]"
      by (cases "existingReports d cid (u_id usr)") auto
    then show ?thesis
      by (rule report_existing_already [OF u _ that(1,2,3)])
  qed
  note g = report_guards [OF u]
  show ?thesis
  proof (intro conjI allI impI)
    show "fst (reportHandler acc now cid rsn d) \<noteq> Inl ReportLimitReached"
      by (rule report_existing_no_write(3) [OF u ne])
    show "snd (reportHandler acc now cid rsn d) = d"
      by (rule report_existing_no_write(1) [OF u ne])
    show "fst (reportHandler acc now cid rsn d) = Inr (ReportResult False True)"
      if "comments d cid = Some c \<and> isCommentVisible c \<and> trim rsn \<noteq> []
             \<and> length (existingReports d cid (u_id usr)) = 1" for c
      using that one [of c] by simp
    show "fst (reportHandler acc now cid rsn d) = Inl NotUnique"
      if "comments d cid = Some c \<and> isCommentVisible c \<and> trim rsn \<noteq> []
             \<and> length (existingReports d cid (u_id usr)) > 1" for c
      using that report_existing_many [OF u, of d cid c rsn now] by simp
    show "fst (reportHandler acc now cid rsn d) = Inl CommentNotFound"
      if "comments d cid = None"
      using that by (simp add: g(1))
    show "fst (reportHandler acc now cid rsn d) = Inl CommentNotFound"
      if "comments d cid = Some c \<and> getCommentStatus c = Removed" for c
      using that by (simp add: g(2))
    show "fst (reportHandler acc now cid rsn d) = Inl CommentAlreadyHidden"
      if "comments d cid = Some c \<and> getCommentStatus c \<noteq> Removed \<and> \<not> isCommentVisible c" for c
      using that by (simp add: g(3))
    show "fst (reportHandler acc now cid rsn d) = Inl ReportReasonRequired"
      if "comments d cid = Some c \<and> isCommentVisible c \<and> trim rsn = []" for c
      using that by (simp add: g(4))
  qed
qed

theorem duplicate_before_cap_witness:
  "countActiveReportsForUser (exCapDb (exComment None) [exReport 20 1 9]) 9
      = MAX_ACTIVE_REPORTS_PER_USER
   \<and> existingReports (exCapDb (exComment None) [exReport 20 1 9]) 1 9 = [exReport 20 1 9]
   \<and> reportHandler (exReporter 9) 60 1 (js ''spam'') (exCapDb (exComment None) [exReport 20 1 9])
      = (Inr (ReportResult False True), exCapDb (exComment None) [exReport 20 1 9])"
proof -
  let ?d = "exCapDb (exComment None) [exReport 20 1 9]"
  have u: "requireUser (exReporter 9) = Some (exUser 9 RoleUser)"
    by (simp add: exReporter_def exAccess_def)
  have id: "u_id (exUser 9 RoleUser) = 9" by (simp add: exUser_def)
  have e: "existingReports ?d 1 (u_id (exUser 9 RoleUser)) = [exReport 20 1 9]"
    using ex_cap_existing(2) [of "exComment None"] by (simp add: id)
  have c: "comments ?d 1 = Some (exComment None)" by (simp add: exCapDb_def)
  have t: "trim (js ''spam'') \<noteq> []" using ex_trim(3) by (simp add: js_def)
  have k: "countActiveReportsForUser ?d 9 = MAX_ACTIVE_REPORTS_PER_USER"
    using ex_cap_active(3)
    by (simp add: countActiveReportsForUser_eq MAX_ACTIVE_REPORTS_PER_USER_def)
  have ne: "existingReports ?d 1 (u_id (exUser 9 RoleUser)) \<noteq> []" using e by simp
  from duplicate_before_cap [OF u ne, of 60 "js ''spam''"] c ex_visible [of None] t e
  have "reportHandler (exReporter 9) 60 1 (js ''spam'') ?d = (Inr (ReportResult False True), ?d)"
    by (simp add: prod_eq_iff)
  with k ex_cap_existing(2) [of "exComment None"] show ?thesis by simp
qed

theorem duplicate_before_cap_counterexample:
  "existingReports (exDb exHidden [exReport 0 1 9]) 1 9 = [exReport 0 1 9]
   \<and> reportHandler (exReporter 9) 60 1 (js ''spam'') (exDb exHidden [exReport 0 1 9])
      = (Inl CommentAlreadyHidden, exDb exHidden [exReport 0 1 9])
   \<and> existingReports (exCapDb (exComment None) [exReport 20 1 9]) 1 9 = [exReport 20 1 9]
   \<and> countActiveReportsForUser (exCapDb (exComment None) [exReport 20 1 9]) 9 = 20
   \<and> reportHandler (exReporter 9) 60 1 exBlank (exCapDb (exComment None) [exReport 20 1 9])
      = (Inl ReportReasonRequired, exCapDb (exComment None) [exReport 20 1 9])"
proof -
  have u: "requireUser (exReporter 9) = Some (exUser 9 RoleUser)"
    by (simp add: exReporter_def exAccess_def)
  have h: "comments (exDb exHidden [exReport 0 1 9]) 1 = Some exHidden"
    by (simp add: exDb_def)
  have s: "getCommentStatus exHidden \<noteq> Removed"
    by (simp add: ex_hidden(2))
  have 1: "reportHandler (exReporter 9) 60 1 (js ''spam'') (exDb exHidden [exReport 0 1 9])
      = (Inl CommentAlreadyHidden, exDb exHidden [exReport 0 1 9])"
    by (rule report_guards(3) [OF u h s ex_hidden(1)])
  have c: "comments (exCapDb (exComment None) [exReport 20 1 9]) 1 = Some (exComment None)"
    by (simp add: exCapDb_def)
  have 2: "reportHandler (exReporter 9) 60 1 exBlank (exCapDb (exComment None) [exReport 20 1 9])
      = (Inl ReportReasonRequired, exCapDb (exComment None) [exReport 20 1 9])"
    by (rule report_guards(4) [OF u c ex_visible ex_blank])
  have e: "existingReports (exDb exHidden [exReport 0 1 9]) 1 9 = [exReport 0 1 9]"
    by (simp add: existingReports_def exDb_def exReport_def)
  have k: "countActiveReportsForUser (exCapDb (exComment None) [exReport 20 1 9]) 9 = 20"
    using ex_cap_active(3) by (simp add: countActiveReportsForUser_eq)
  from 1 2 e k ex_cap_existing(2) [of "exComment None"] show ?thesis by simp
qed

subsection \<open>Claim C10: hard delete of a missing comment\<close>

text \<open>
  Claim C10. A hard-delete request whose comment id resolves to no comment changes nothing
  in the store (no delete, no write, no stat event, no audit entry), never fails with the
  not-found error and, for a caller whom the access gates let through, returns
  \<^verbatim>\<open>{deleted: false}\<close>.
\<close>

theorem hardDelete_missing:
  "comments d cid = None \<Longrightarrow>
     snd (hardDeleteHandler acc now cid d) = d
     \<and> fst (hardDeleteHandler acc now cid d) \<noteq> Inl CommentNotFound
     \<and> (\<forall>usr. requireUser acc = Some usr \<and> assertAdmin acc usr \<longrightarrow>
           hardDeleteHandler acc now cid d = (Inr (DeleteResult False), d))"
  by (simp add: hardDeleteHandler_def split: option.splits)

theorem hardDelete_missing_witness:
  "comments (exDb (exComment None) [exReport 0 1 9]) 2 = None
   \<and> hardDeleteHandler (exAccess (exUser 3 RoleAdmin)) 60 2 (exDb (exComment None) [exReport 0 1 9])
       = (Inr (DeleteResult False), exDb (exComment None) [exReport 0 1 9])"
proof -
  have m: "comments (exDb (exComment None) [exReport 0 1 9]) 2 = None"
    by (simp add: exDb_def)
  have a: "requireUser (exAccess (exUser 3 RoleAdmin)) = Some (exUser 3 RoleAdmin)
           \<and> assertAdmin (exAccess (exUser 3 RoleAdmin)) (exUser 3 RoleAdmin)"
    by (simp add: exAccess_def exUser_def)
  from hardDelete_missing [OF m, of "exAccess (exUser 3 RoleAdmin)" 60] a m
  show ?thesis by blast
qed

section \<open>Theorems: structural fingerprint\<close>


lemma stripFrontmatter_leading:
  "matchFrontmatter md = Some rest \<Longrightarrow> stripFrontmatter md = rest"
  by (cases md) (simp_all add: stripFrontmatter_def matchFrontmatter_def js_def)

lemma fingerprint_with_leading_block:
  "matchFrontmatter md = Some rest \<Longrightarrow> toStructuralFingerprint md = fingerprintLeading md"
  by (simp add: toStructuralFingerprint_def fingerprintLeading_def stripLeadingBlock_def
      stripFrontmatter_leading)

lemma wordBucket_range: "wordBucket txt \<in> {js ''s'', js ''m'', js ''l''}"
  by (simp add: wordBucket_def Let_def)

lemma if_chain_cases:
  "(if a then f1 else if b then f2 else if c then f3 else if d then f4 else if e then f5 else f6)
     \<in> {f1, f2, f3, f4, f5, f6}"
  by simp

lemma lineToken_cases:
  "lineToken line \<in>
     {js ''h3:'' @ wordBucket (drop 4 line), js ''h2:'' @ wordBucket (drop 3 line),
      js ''h1:'' @ wordBucket (drop 2 line), js ''b:'' @ wordBucket (stripBullet line),
      js ''n:'' @ wordBucket (stripNumbered line), js ''p:'' @ wordBucket line}"
  unfolding lineToken_def by (rule if_chain_cases)

lemma fingerprint_tokens:
  "\<exists>ls. toStructuralFingerprint md = joinWith (js ''|'') (map lineToken ls)
         \<and> length ls \<le> 80 \<and> [] \<notin> set ls"
proof -
  let ?ls = "take 80 (filter (\<lambda>line. line \<noteq> []) (map trim (splitLines (stripFrontmatter md))))"
  have "[] \<notin> set ?ls"
    by (auto dest: in_set_takeD)
  moreover have "length ?ls \<le> 80" by simp
  moreover have "toStructuralFingerprint md = joinWith (js ''|'') (map lineToken ?ls)"
    by (simp add: toStructuralFingerprint_def)
  ultimately show ?thesis by blast
qed

text \<open>
  Claim C8. The claim has the fingerprint strip the leading metadata block only. The
  pattern of \<open>stripFrontmatter\<close> carries the flag \<^verbatim>\<open>m\<close>, so it also matches a block fenced by
  \<^verbatim>\<open>---\<close> lines that begins at a later line. The document \<open>exDocRules\<close> has no leading
  metadata block, and yet the text between its two horizontal rules is removed: the
  fingerprint has two tokens, where stripping a leading block only gives six.
\<close>

theorem fingerprint_inner_block:
  "matchFrontmatter exDocRules = None
   \<and> stripFrontmatter exDocRules
       = js ''# Deploy helper'' @ [10] @ js ''Maintained by the platform team'' @ [10]
   \<and> toStructuralFingerprint exDocRules = js ''h1:s|p:m''
   \<and> fingerprintLeading exDocRules = js ''h1:s|p:s|h2:s|b:m|p:s|p:m''"
  by (simp add: toStructuralFingerprint_def fingerprintLeading_def stripLeadingBlock_def
      exDocRules_def exDocFront_def stripFrontmatter_def matchFrontmatter_def
      isLineTerminator_def isSpace_def List.map_filter_simps trim_def lineToken_def
      wordBucket_def tokenizeWords_def toLowerCase_def isWordStart_def isWordChar_def
      isBullet_def isNumbered_def isDigit_def stripBullet_def stripNumbered_def js_def)

lemma fingerprint_front_block:
  "toStructuralFingerprint exDocFront = js ''h1:s|b:m''
   \<and> fingerprintLeading exDocFront = js ''h1:s|b:m''"
  by (simp add: toStructuralFingerprint_def fingerprintLeading_def stripLeadingBlock_def
      exDocRules_def exDocFront_def stripFrontmatter_def matchFrontmatter_def
      isLineTerminator_def isSpace_def List.map_filter_simps trim_def lineToken_def
      wordBucket_def tokenizeWords_def toLowerCase_def isWordStart_def isWordChar_def
      isBullet_def isNumbered_def isDigit_def stripBullet_def stripNumbered_def js_def)

end
